theory Spec2Isabelle
  imports Complex_Main "HOL-Library.AList" "HOL-Library.Sublist"
begin

section \<open>Text helpers\<close>

text \<open>
  Python strings are modelled as HOL strings, whose characters are the code points 0 to
  255 (Latin-1). On these code points the text functions below follow
  \<^verbatim>\<open>str.isdigit\<close>, \<^verbatim>\<open>str.lower\<close>, \<^verbatim>\<open>str.strip\<close>, \<^verbatim>\<open>int\<close> and the \<^verbatim>\<open>in\<close>
  operator on strings.
\<close>

text \<open>The decimal digits: what \<^verbatim>\<open>\d\<close> matches and what \<^verbatim>\<open>int\<close> reads.\<close>

definition is_digit :: "char \<Rightarrow> bool" where
  "is_digit c = (c \<in> set ''0123456789'')"

text \<open>
  The characters \<^verbatim>\<open>str.isdigit\<close> counts as digits: the decimal digits and the
  superscripts two, three and one (U+00B2, U+00B3, U+00B9), which are digits but not
  decimal digits.
\<close>

definition is_superscript :: "char \<Rightarrow> bool" where
  "is_superscript c = (c \<in> set [CHR 0xB2, CHR 0xB3, CHR 0xB9])"

text \<open>\<^verbatim>\<open>s.isdigit()\<close>: every character is a digit and there is at least one.\<close>

definition isdigit :: "string \<Rightarrow> bool" where
  "isdigit s = (s \<noteq> [] \<and> list_all (\<lambda>c. is_digit c \<or> is_superscript c) s)"

text \<open>\<^verbatim>\<open>s.isdecimal()\<close>: every character is a decimal digit and there is at least one.\<close>

definition isdecimal :: "string \<Rightarrow> bool" where
  "isdecimal s = (s \<noteq> [] \<and> list_all is_digit s)"

definition digit_val :: "char \<Rightarrow> int" where
  "digit_val c =
     (case map_of (zip ''0123456789'' [0, 1, 2, 3, 4, 5, 6, 7, 8, 9]) c of
        Some d \<Rightarrow> d
      | None \<Rightarrow> 0)"

text \<open>The value of a string of decimal digits, most significant digit first.\<close>

definition int_of_digits :: "string \<Rightarrow> int" where
  "int_of_digits ds = foldl (\<lambda>a c. 10 * a + digit_val c) 0 ds"

text \<open>
  \<^verbatim>\<open>str.lower\<close> on one character: the capitals A to Z, and the Latin-1 capitals
  U+00C0 to U+00DE other than the multiplication sign U+00D7, become the small letter 32
  code points above; every other character stays.
\<close>

definition lower_char :: "char \<Rightarrow> char" where
  "lower_char c =
     (case map_of (zip (''ABCDEFGHIJKLMNOPQRSTUVWXYZ''
                        @ [CHR 0xC0, CHR 0xC1, CHR 0xC2, CHR 0xC3, CHR 0xC4, CHR 0xC5,
                           CHR 0xC6, CHR 0xC7, CHR 0xC8, CHR 0xC9, CHR 0xCA, CHR 0xCB,
                           CHR 0xCC, CHR 0xCD, CHR 0xCE, CHR 0xCF, CHR 0xD0, CHR 0xD1,
                           CHR 0xD2, CHR 0xD3, CHR 0xD4, CHR 0xD5, CHR 0xD6, CHR 0xD8,
                           CHR 0xD9, CHR 0xDA, CHR 0xDB, CHR 0xDC, CHR 0xDD, CHR 0xDE])
                       (''abcdefghijklmnopqrstuvwxyz''
                        @ [CHR 0xE0, CHR 0xE1, CHR 0xE2, CHR 0xE3, CHR 0xE4, CHR 0xE5,
                           CHR 0xE6, CHR 0xE7, CHR 0xE8, CHR 0xE9, CHR 0xEA, CHR 0xEB,
                           CHR 0xEC, CHR 0xED, CHR 0xEE, CHR 0xEF, CHR 0xF0, CHR 0xF1,
                           CHR 0xF2, CHR 0xF3, CHR 0xF4, CHR 0xF5, CHR 0xF6, CHR 0xF8,
                           CHR 0xF9, CHR 0xFA, CHR 0xFB, CHR 0xFC, CHR 0xFD, CHR 0xFE])) c of
        Some l \<Rightarrow> l
      | None \<Rightarrow> c)"

definition lower :: "string \<Rightarrow> string" where
  "lower s = map lower_char s"

text \<open>
  The characters \<^verbatim>\<open>str.strip()\<close> removes: tab, line feed, vertical tab, form feed,
  carriage return, the four separators 0x1c..0x1f, the space, the next-line control
  U+0085 and the no-break space U+00A0.
\<close>

definition is_space :: "char \<Rightarrow> bool" where
  "is_space c =
     (c \<in> set [CHR 0x09, CHR 0x0A, CHR 0x0B, CHR 0x0C, CHR 0x0D,
                CHR 0x1C, CHR 0x1D, CHR 0x1E, CHR 0x1F, CHR '' '', CHR 0x85, CHR 0xA0])"

definition strip :: "string \<Rightarrow> string" where
  "strip s = rev (dropWhile is_space (rev (dropWhile is_space s)))"

text \<open>
  The characters \<^verbatim>\<open>int\<close> skips around a number: those of \<^verbatim>\<open>str.strip()\<close> except
  the four separators 0x1c..0x1f.
\<close>

definition is_int_space :: "char \<Rightarrow> bool" where
  "is_int_space c =
     (c \<in> set [CHR 0x09, CHR 0x0A, CHR 0x0B, CHR 0x0C, CHR 0x0D, CHR '' '', CHR 0x85, CHR 0xA0])"

definition int_strip :: "string \<Rightarrow> string" where
  "int_strip s = rev (dropWhile is_int_space (rev (dropWhile is_int_space s)))"

fun starts_with :: "string \<Rightarrow> string \<Rightarrow> bool" where
  "starts_with [] t = True"
| "starts_with (x # xs) [] = False"
| "starts_with (x # xs) (y # ys) = (x = y \<and> starts_with xs ys)"

text \<open>\<^verbatim>\<open>word in text\<close>: \<open>word\<close> occurs in \<open>text\<close> as a contiguous run of characters.\<close>

fun contains :: "string \<Rightarrow> string \<Rightarrow> bool" where
  "contains w [] = (w = [])"
| "contains w (c # cs) = (starts_with w (c # cs) \<or> contains w cs)"

text \<open>\<^verbatim>\<open>" ".join(args)\<close>\<close>

fun join_space :: "string list \<Rightarrow> string" where
  "join_space [] = []"
| "join_space [a] = a"
| "join_space (a # b # bs) = a @ '' '' @ join_space (b # bs)"

section \<open>Exceptions\<close>

text \<open>The Python exceptions the modelled code can raise; all are subclasses of \<^verbatim>\<open>Exception\<close>.\<close>

datatype exn =
    FileNotFoundError
  | OSError
  | UnicodeDecodeError
  | JSONDecodeError
  | AttributeError
  | ValueError
  | KeyError

section \<open>\<^verbatim>\<open>int(s)\<close> and \<^verbatim>\<open>parse_duration\<close>\<close>

text \<open>Splitting at a separator character, as \<^verbatim>\<open>s.split("_")\<close> does.\<close>

fun split_on :: "char \<Rightarrow> string \<Rightarrow> string list" where
  "split_on sep [] = [[]]"
| "split_on sep (c # cs) =
     (case split_on sep cs of
        [] \<Rightarrow> [[c]]
      | p # ps \<Rightarrow> if c = sep then [] # p # ps else (c # p) # ps)"

text \<open>
  \<^verbatim>\<open>int(s)\<close> on a string: surrounding whitespace is ignored, one sign is allowed, and the
  decimal digits may be grouped by single underscores; anything else raises
  \<^verbatim>\<open>ValueError\<close>.
\<close>

definition py_int :: "string \<Rightarrow> exn + int" where
  "py_int s =
     (let t = int_strip s;
          neg = (t \<noteq> [] \<and> hd t = CHR ''-'');
          body = (if t \<noteq> [] \<and> (hd t = CHR ''-'' \<or> hd t = CHR ''+'') then tl t else t);
          groups = split_on CHR ''_'' body
      in if list_all isdecimal groups
         then Inr ((if neg then - 1 else 1) * int_of_digits (concat groups))
         else Inl ValueError)"

text \<open>
  The regular expression \<^verbatim>\<open>(\d+)([smhd])\<close> under \<^verbatim>\<open>re.fullmatch\<close> with
  \<^verbatim>\<open>re.IGNORECASE\<close>: the longest run of digits, which must not be empty, then exactly
  one unit letter, then the end of the string. The result is the two groups.
\<close>

definition fullmatch_duration :: "string \<Rightarrow> (string \<times> char) option" where
  "fullmatch_duration t =
     (let ds = takeWhile is_digit t; rest = dropWhile is_digit t
      in case rest of
           [u] \<Rightarrow> if ds \<noteq> [] \<and> lower_char u \<in> set ''smhd'' then Some (ds, u) else None
         | _ \<Rightarrow> None)"

text \<open>The lookup \<^verbatim>\<open>{"s": 1, "m": 60, "h": 3600, "d": 86400}[unit]\<close>; a missing key raises.\<close>

definition unit_mult :: "char \<Rightarrow> exn + int" where
  "unit_mult u =
     (case map_of [(CHR ''s'', 1), (CHR ''m'', 60), (CHR ''h'', 3600), (CHR ''d'', 86400)] u of
        None \<Rightarrow> Inl KeyError
      | Some k \<Rightarrow> Inr k)"

definition parse_duration :: "string option \<Rightarrow> exn + int option" where
  "parse_duration so =
     (case so of
        None \<Rightarrow> Inr None
      | Some s \<Rightarrow>
          if s = [] then Inr None
          else (case fullmatch_duration (strip s) of
                  None \<Rightarrow> Inr None
                | Some (ds, u) \<Rightarrow>
                    (case unit_mult (lower_char u) of
                       Inl e \<Rightarrow> Inl e
                     | Inr mult \<Rightarrow> Inr (Some (int_of_digits ds * mult)))))"

section \<open>The persisted data model\<close>

text \<open>
  The module-level dictionary \<^verbatim>\<open>data\<close> has the layout documented above
  \<^verbatim>\<open>load_data\<close>: \<^verbatim>\<open>chats\<close> maps a chat id to the chat's configuration, whose keys are
  the ones \<^verbatim>\<open>ensure_chat\<close> creates; \<^verbatim>\<open>users\<close> and \<^verbatim>\<open>groups\<close> map the ids seen to
  \<^verbatim>\<open>true\<close>. Dictionary keys are \<^verbatim>\<open>str(id)\<close>; since \<^verbatim>\<open>str\<close> is injective on
  integers the model keys the maps by the id itself. The \<^verbatim>\<open>filters\<close> dictionary is
  iterated, so it is an association list in insertion order; the others are only looked
  up and updated by key, so they are maps. Timestamps (\<^verbatim>\<open>time.time()\<close>) are real numbers.
\<close>

record flood_window =
  count :: int
  ts :: real

record chat_conf =
  max_warns :: int
  welcome_on :: bool
  welcome_text :: string
  antispam_on :: bool
  filters :: "(string \<times> bool) list"
  warns :: "int \<rightharpoonup> int"
  flood :: "int \<rightharpoonup> flood_window"
  slowmode_secs :: int

record store =
  chats :: "int \<rightharpoonup> chat_conf"
  users :: "int set"
  groups :: "int set"

definition DEFAULT_MAX_WARNS :: int where
  "DEFAULT_MAX_WARNS = 3"

definition DEFAULT_WELCOME :: string where
  "DEFAULT_WELCOME = ''Welcome, {mention}!''"

definition empty_store :: store where
  "empty_store = \<lparr>chats = Map.empty, users = {}, groups = {}\<rparr>"

definition default_conf :: chat_conf where
  "default_conf =
     \<lparr>max_warns = DEFAULT_MAX_WARNS, welcome_on = True, welcome_text = DEFAULT_WELCOME,
      antispam_on = True, filters = [], warns = Map.empty, flood = Map.empty,
      slowmode_secs = 0\<rparr>"

subsection \<open>The data file\<close>

text \<open>
  A JSON document whose top level is an object: each of the three top-level keys is
  present or not. What \<^verbatim>\<open>json.dump\<close> writes from a store, \<^verbatim>\<open>json.load\<close> reads back as
  the same tree; the text of the file is not modelled.
\<close>

record document =
  d_chats :: "(int \<rightharpoonup> chat_conf) option"
  d_users :: "int set option"
  d_groups :: "int set option"

text \<open>
  What \<^verbatim>\<open>DATA_FILE\<close> holds: no file; a file that cannot be opened; bytes that are not
  UTF-8; text that is not JSON; JSON whose top level is not an object; a document.
\<close>

datatype data_file =
    NoFile
  | Unreadable
  | NotText
  | Malformed
  | NonObject
  | Document document

text \<open>
  The process state: the global \<^verbatim>\<open>data\<close>, the contents of the data file, and whether
  the file can be opened for writing.
\<close>

record world =
  data :: store
  disk :: data_file
  writable :: bool

definition dump :: "store \<Rightarrow> document" where
  "dump s = \<lparr>d_chats = Some (chats s), d_users = Some (users s), d_groups = Some (groups s)\<rparr>"

text \<open>
  \<^verbatim>\<open>save_data\<close>: writes the whole store; an exception (here: the file cannot be opened
  for writing) is logged and swallowed, the file staying as it was.
\<close>

definition save_data :: "world \<Rightarrow> world" where
  "save_data w = (if writable w then w\<lparr>disk := Document (dump (data w))\<rparr> else w)"

datatype parsed = PObject document | POther

text \<open>\<^verbatim>\<open>open(DATA_FILE)\<close> followed by \<^verbatim>\<open>json.load(f)\<close>.\<close>

definition open_and_parse :: "data_file \<Rightarrow> exn + parsed" where
  "open_and_parse f =
     (case f of
        NoFile \<Rightarrow> Inl FileNotFoundError
      | Unreadable \<Rightarrow> Inl OSError
      | NotText \<Rightarrow> Inl UnicodeDecodeError
      | Malformed \<Rightarrow> Inl JSONDecodeError
      | NonObject \<Rightarrow> Inr POther
      | Document d \<Rightarrow> Inr (PObject d))"

text \<open>The three \<^verbatim>\<open>data.setdefault(key, {})\<close> calls; a value that is no dictionary has no such method.\<close>

definition set_defaults :: "parsed \<Rightarrow> exn + store" where
  "set_defaults p =
     (case p of
        POther \<Rightarrow> Inl AttributeError
      | PObject d \<Rightarrow>
          Inr \<lparr>chats = (case d_chats d of None \<Rightarrow> Map.empty | Some c \<Rightarrow> c),
               users = (case d_users d of None \<Rightarrow> {} | Some u \<Rightarrow> u),
               groups = (case d_groups d of None \<Rightarrow> {} | Some g \<Rightarrow> g)\<rparr>)"

text \<open>
  \<^verbatim>\<open>load_data\<close>: the body of the \<^verbatim>\<open>try\<close>, then the two handlers, \<^verbatim>\<open>except
  FileNotFoundError\<close> and \<^verbatim>\<open>except Exception\<close>. The result is \<open>Inl\<close> when an exception
  leaves the function.
\<close>

definition load_data :: "world \<Rightarrow> exn + world" where
  "load_data w =
     (case (case open_and_parse (disk w) of Inl e \<Rightarrow> Inl e | Inr p \<Rightarrow> set_defaults p) of
        Inr s \<Rightarrow> Inr (w\<lparr>data := s\<rparr>)
      | Inl FileNotFoundError \<Rightarrow> Inr (w\<lparr>data := empty_store\<rparr>)
      | Inl e \<Rightarrow> Inr (w\<lparr>data := empty_store\<rparr>))"

subsection \<open>Lazy creation and statistics\<close>

text \<open>\<^verbatim>\<open>ensure_chat\<close> returns the chat's configuration, creating the default one first.\<close>

definition ensure_chat :: "int \<Rightarrow> store \<Rightarrow> chat_conf \<times> store" where
  "ensure_chat chat_id s =
     (case chats s chat_id of
        None \<Rightarrow> (default_conf, s\<lparr>chats := (chats s)(chat_id \<mapsto> default_conf)\<rparr>)
      | Some conf \<Rightarrow> (conf, s))"

text \<open>
  The handlers mutate the dictionary \<^verbatim>\<open>ensure_chat\<close> returned, which is the one inside
  \<^verbatim>\<open>data\<close>; the model writes the changed configuration back.
\<close>

definition store_conf :: "int \<Rightarrow> chat_conf \<Rightarrow> store \<Rightarrow> store" where
  "store_conf chat_id conf s = s\<lparr>chats := (chats s)(chat_id \<mapsto> conf)\<rparr>"

datatype chat_type = Private | Group | Supergroup | Channel

definition touch_user_and_chat_for_stats :: "int option \<Rightarrow> int \<Rightarrow> chat_type \<Rightarrow> store \<Rightarrow> store" where
  "touch_user_and_chat_for_stats u c ty s =
     (let s1 = (case u of None \<Rightarrow> s | Some uid \<Rightarrow> s\<lparr>users := insert uid (users s)\<rparr>)
      in if ty = Group \<or> ty = Supergroup then s1\<lparr>groups := insert c (groups s1)\<rparr> else s1)"

section \<open>Updates, effects and results\<close>

text \<open>
  What a handler reads from \<^verbatim>\<open>update\<close> and \<^verbatim>\<open>context\<close>: the chat, the sending user
  (\<^verbatim>\<open>effective_user\<close>, for a message its \<^verbatim>\<open>from_user\<close>), whether the platform reports
  that user as creator or administrator of the chat, the message's text and caption, the
  author of the message replied to, the command's arguments, the id the platform resolves
  the first argument to (\<^verbatim>\<open>context.bot.get_chat\<close>; \<open>None\<close> when that call raises), and
  the clock: the two successive \<^verbatim>\<open>time.time()\<close> readings of the flood control and
  \<^verbatim>\<open>datetime.utcnow()\<close> in seconds.
\<close>

record update =
  u_chat :: int
  u_chat_type :: chat_type
  u_user :: "int option"
  u_is_admin :: bool
  u_text :: "string option"
  u_caption :: "string option"
  u_reply_to :: "int option"
  u_args :: "string list"
  u_lookup :: "int option"
  u_clock0 :: real
  u_clock1 :: real
  u_utcnow :: real

text \<open>
  The texts the bot sends, by kind and with the values they show. Messages to the log
  channel (\<^verbatim>\<open>log_action\<close>) are left out: they touch neither the store nor the chat.
\<close>

datatype notice =
    Hello
  | HelpText
  | AdminsOnly
  | ReplyToMute
  | ReplyToBan
  | ReplyToWarn
  | SpecifyUser
  | UsageSetMaxWarns
  | UsageAddFilter
  | UsageRmFilter
  | UsageSlowmode
  | UsageSetWelcome
  | MutedNotice int "string option"
  | BannedNotice int "string option"
  | MaxWarnsBanned int
  | WarnedReply int int int string
  | WarnedNotice int int int
  | WarningsCount int int
  | WarningsReset
  | MaxWarnsSet int
  | FilterAdded string bool
  | FilterRemoved string
  | NoSuchFilter
  | NoFilters
  | FilterList "(string \<times> bool) list"
  | AntispamStatus bool
  | AntispamSet bool
  | SlowmodeSet int
  | WelcomeUpdated
  | WelcomeToggled bool
  | FloodMuteNotice int

text \<open>
  The platform calls a handler makes. A ban or restriction carries its \<^verbatim>\<open>until_date\<close>;
  \<open>None\<close> is a call without one, which the platform applies with no expiry.
\<close>

datatype effect =
    Reply notice
  | SendMessage notice
  | DeleteMessage
  | BanMember int "real option"
  | RestrictMember int "real option"
  | SetSlowModeDelay int

text \<open>A handler returns after its platform calls, or an exception leaves it.\<close>

datatype result = Done "effect list" | Raised exn

definition require_admin :: "update \<Rightarrow> bool \<times> effect list" where
  "require_admin u =
     (case u_user u of
        None \<Rightarrow> (False, [])
      | Some user \<Rightarrow> if u_is_admin u then (True, []) else (False, [Reply AdminsOnly]))"

text \<open>\<^verbatim>\<open>until_date = utcnow() + timedelta(seconds=duration) if duration else None\<close>\<close>

definition until_date :: "real \<Rightarrow> int option \<Rightarrow> real option" where
  "until_date now duration =
     (case duration of
        None \<Rightarrow> None
      | Some d \<Rightarrow> if d = 0 then None else Some (now + real_of_int d))"

text \<open>The suffix \<^verbatim>\<open>f" for {context.args[0]}"\<close>, shown when the duration is truthy.\<close>

definition shown_duration :: "string list \<Rightarrow> int option \<Rightarrow> string option" where
  "shown_duration as duration =
     (case duration of
        None \<Rightarrow> None
      | Some d \<Rightarrow> if d = 0 then None else (case as of [] \<Rightarrow> None | a # _ \<Rightarrow> Some a))"

text \<open>\<^verbatim>\<open>parse_duration(context.args[0]) if context.args else None\<close>\<close>

definition duration_arg :: "string list \<Rightarrow> exn + int option" where
  "duration_arg as = (case as of [] \<Rightarrow> Inr None | a # _ \<Rightarrow> parse_duration (Some a))"

section \<open>Mute and ban\<close>

definition mute :: "world \<Rightarrow> update \<Rightarrow> world \<times> result" where
  "mute w u =
     (case require_admin u of
        (False, es) \<Rightarrow> (w, Done es)
      | (True, _) \<Rightarrow>
          (case u_reply_to u of
             None \<Rightarrow> (w, Done [Reply ReplyToMute])
           | Some target \<Rightarrow>
               (case duration_arg (u_args u) of
                  Inl e \<Rightarrow> (w, Raised e)
                | Inr duration \<Rightarrow>
                    (w, Done [RestrictMember target (until_date (u_utcnow u) duration),
                              Reply (MutedNotice target (shown_duration (u_args u) duration))]))))"

definition ban :: "world \<Rightarrow> update \<Rightarrow> world \<times> result" where
  "ban w u =
     (case require_admin u of
        (False, es) \<Rightarrow> (w, Done es)
      | (True, _) \<Rightarrow>
          (case u_reply_to u of
             None \<Rightarrow> (w, Done [Reply ReplyToBan])
           | Some target \<Rightarrow>
               (case duration_arg (u_args u) of
                  Inl e \<Rightarrow> (w, Raised e)
                | Inr duration \<Rightarrow>
                    (w, Done [BanMember target (until_date (u_utcnow u) duration),
                              Reply (BannedNotice target (shown_duration (u_args u) duration))]))))"

section \<open>Warnings\<close>

text \<open>\<^verbatim>\<open>int(warns.get(str(user_id), 0))\<close>\<close>

definition warn_count :: "chat_conf \<Rightarrow> int \<Rightarrow> int" where
  "warn_count conf uid = (case warns conf uid of None \<Rightarrow> 0 | Some n \<Rightarrow> n)"

definition warn :: "world \<Rightarrow> update \<Rightarrow> world \<times> result" where
  "warn w u =
     (case require_admin u of
        (False, es) \<Rightarrow> (w, Done es)
      | (True, _) \<Rightarrow>
          (case ensure_chat (u_chat u) (data w) of
             (conf, s) \<Rightarrow>
               (case u_reply_to u of
                  None \<Rightarrow> (w\<lparr>data := s\<rparr>, Done [Reply ReplyToWarn])
                | Some target \<Rightarrow>
                    (let reason = join_space (u_args u);
                         cur = warn_count conf target + 1;
                         conf' = conf\<lparr>warns := (warns conf)(target \<mapsto> cur)\<rparr>;
                         w' = save_data (w\<lparr>data := store_conf (u_chat u) conf' s\<rparr>)
                     in if cur \<ge> max_warns conf'
                        then (w', Done [BanMember target None, Reply (MaxWarnsBanned target)])
                        else (w', Done [Reply (WarnedReply target cur (max_warns conf') reason)])))))"

text \<open>
  The target of \<^verbatim>\<open>/warnings\<close> and \<^verbatim>\<open>/resetwarns\<close>, from the first argument: a string
  of digits is the id itself, anything else is looked up on the platform.
\<close>

definition ident_target :: "update \<Rightarrow> exn + int option" where
  "ident_target u =
     (case u_args u of
        [] \<Rightarrow> Inr None
      | ident # _ \<Rightarrow>
          if isdigit ident
          then (case py_int ident of Inl e \<Rightarrow> Inl e | Inr n \<Rightarrow> Inr (Some n))
          else Inr (u_lookup u))"

definition or_else :: "'a option \<Rightarrow> 'a option \<Rightarrow> 'a option" where
  "or_else a b = (case a of None \<Rightarrow> b | Some x \<Rightarrow> Some x)"

definition warnings_cmd :: "world \<Rightarrow> update \<Rightarrow> world \<times> result" where
  "warnings_cmd w u =
     (case ensure_chat (u_chat u) (data w) of
        (conf, s) \<Rightarrow>
          (case ident_target u of
             Inl e \<Rightarrow> (w\<lparr>data := s\<rparr>, Raised e)
           | Inr t \<Rightarrow>
               (let target_id = or_else (or_else t (u_reply_to u)) (u_user u);
                    n = (case target_id of None \<Rightarrow> 0 | Some uid \<Rightarrow> warn_count conf uid)
                in (w\<lparr>data := s\<rparr>, Done [Reply (WarningsCount n (max_warns conf))]))))"

definition resetwarns :: "world \<Rightarrow> update \<Rightarrow> world \<times> result" where
  "resetwarns w u =
     (case require_admin u of
        (False, es) \<Rightarrow> (w, Done es)
      | (True, _) \<Rightarrow>
          (case ensure_chat (u_chat u) (data w) of
             (conf, s) \<Rightarrow>
               (case ident_target u of
                  Inl e \<Rightarrow> (w\<lparr>data := s\<rparr>, Raised e)
                | Inr t \<Rightarrow>
                    (case or_else t (u_reply_to u) of
                       None \<Rightarrow> (w\<lparr>data := s\<rparr>, Done [Reply SpecifyUser])
                     | Some target_id \<Rightarrow>
                         (save_data (w\<lparr>data :=
                            store_conf (u_chat u) (conf\<lparr>warns := (warns conf)(target_id \<mapsto> 0)\<rparr>) s\<rparr>),
                          Done [Reply WarningsReset])))))"

definition setmaxwarns :: "world \<Rightarrow> update \<Rightarrow> world \<times> result" where
  "setmaxwarns w u =
     (case require_admin u of
        (False, es) \<Rightarrow> (w, Done es)
      | (True, _) \<Rightarrow>
          (case u_args u of
             [] \<Rightarrow> (w, Done [Reply UsageSetMaxWarns])
           | a # _ \<Rightarrow>
               if \<not> isdigit a then (w, Done [Reply UsageSetMaxWarns])
               else
                 (case ensure_chat (u_chat u) (data w) of
                    (conf, s) \<Rightarrow>
                      (case py_int a of
                         Inl e \<Rightarrow> (w\<lparr>data := s\<rparr>, Raised e)
                       | Inr n \<Rightarrow>
                           (save_data (w\<lparr>data := store_conf (u_chat u) (conf\<lparr>max_warns := n\<rparr>) s\<rparr>),
                            Done [Reply (MaxWarnsSet n)])))))"

section \<open>Configuration commands\<close>

text \<open>\<^verbatim>\<open>len(args) > 1 and args[1].lower() == "warn"\<close>\<close>

definition warn_flag :: "string list \<Rightarrow> bool" where
  "warn_flag as = (case as of _ # b # _ \<Rightarrow> lower b = ''warn'' | _ \<Rightarrow> False)"

definition addfilter :: "world \<Rightarrow> update \<Rightarrow> world \<times> result" where
  "addfilter w u =
     (case require_admin u of
        (False, es) \<Rightarrow> (w, Done es)
      | (True, _) \<Rightarrow>
          (case u_args u of
             [] \<Rightarrow> (w, Done [Reply UsageAddFilter])
           | a # _ \<Rightarrow>
               (case ensure_chat (u_chat u) (data w) of
                  (conf, s) \<Rightarrow>
                    (let word = lower a;
                         flag = warn_flag (u_args u);
                         conf' = conf\<lparr>filters := AList.update word flag (filters conf)\<rparr>
                     in (save_data (w\<lparr>data := store_conf (u_chat u) conf' s\<rparr>),
                         Done [Reply (FilterAdded word flag)])))))"

definition rmfilter :: "world \<Rightarrow> update \<Rightarrow> world \<times> result" where
  "rmfilter w u =
     (case require_admin u of
        (False, es) \<Rightarrow> (w, Done es)
      | (True, _) \<Rightarrow>
          (case u_args u of
             [] \<Rightarrow> (w, Done [Reply UsageRmFilter])
           | a # _ \<Rightarrow>
               (case ensure_chat (u_chat u) (data w) of
                  (conf, s) \<Rightarrow>
                    (let word = lower a
                     in if word \<in> fst ` set (filters conf)
                        then (save_data (w\<lparr>data :=
                                store_conf (u_chat u) (conf\<lparr>filters := AList.delete word (filters conf)\<rparr>) s\<rparr>),
                              Done [Reply (FilterRemoved word)])
                        else (w\<lparr>data := s\<rparr>, Done [Reply NoSuchFilter])))))"

definition listfilters :: "world \<Rightarrow> update \<Rightarrow> world \<times> result" where
  "listfilters w u =
     (case ensure_chat (u_chat u) (data w) of
        (conf, s) \<Rightarrow>
          if filters conf = [] then (w\<lparr>data := s\<rparr>, Done [Reply NoFilters])
          else (w\<lparr>data := s\<rparr>, Done [Reply (FilterList (filters conf))]))"

definition antispam :: "world \<Rightarrow> update \<Rightarrow> world \<times> result" where
  "antispam w u =
     (case require_admin u of
        (False, es) \<Rightarrow> (w, Done es)
      | (True, _) \<Rightarrow>
          (case ensure_chat (u_chat u) (data w) of
             (conf, s) \<Rightarrow>
               (case u_args u of
                  [] \<Rightarrow> (w\<lparr>data := s\<rparr>, Done [Reply (AntispamStatus (antispam_on conf))])
                | a # _ \<Rightarrow>
                    if lower a \<noteq> ''on'' \<and> lower a \<noteq> ''off''
                    then (w\<lparr>data := s\<rparr>, Done [Reply (AntispamStatus (antispam_on conf))])
                    else
                      (save_data (w\<lparr>data :=
                         store_conf (u_chat u) (conf\<lparr>antispam_on := (lower a = ''on'')\<rparr>) s\<rparr>),
                       Done [Reply (AntispamSet (lower a = ''on''))]))))"

text \<open>
  \<^verbatim>\<open>/slowmode\<close>: the argument goes to \<^verbatim>\<open>int\<close> unchecked, after the chat's configuration
  has been looked up (and created).
\<close>

definition slowmode :: "world \<Rightarrow> update \<Rightarrow> world \<times> result" where
  "slowmode w u =
     (case require_admin u of
        (False, es) \<Rightarrow> (w, Done es)
      | (True, _) \<Rightarrow>
          (case ensure_chat (u_chat u) (data w) of
             (conf, s) \<Rightarrow>
               (case u_args u of
                  [] \<Rightarrow> (w\<lparr>data := s\<rparr>, Done [Reply UsageSlowmode])
                | a # _ \<Rightarrow>
                    (case (if lower a = ''off'' then Inr 0 else py_int (lower a)) of
                       Inl e \<Rightarrow> (w\<lparr>data := s\<rparr>, Raised e)
                     | Inr secs \<Rightarrow>
                         (save_data (w\<lparr>data :=
                            store_conf (u_chat u) (conf\<lparr>slowmode_secs := secs\<rparr>) s\<rparr>),
                          Done [SetSlowModeDelay secs, Reply (SlowmodeSet secs)])))))"

definition setwelcome :: "world \<Rightarrow> update \<Rightarrow> world \<times> result" where
  "setwelcome w u =
     (case require_admin u of
        (False, es) \<Rightarrow> (w, Done es)
      | (True, _) \<Rightarrow>
          (case ensure_chat (u_chat u) (data w) of
             (conf, s) \<Rightarrow>
               (let txt = join_space (u_args u)
                in if txt = [] then (w\<lparr>data := s\<rparr>, Done [Reply UsageSetWelcome])
                   else (save_data (w\<lparr>data :=
                           store_conf (u_chat u) (conf\<lparr>welcome_text := txt\<rparr>) s\<rparr>),
                         Done [Reply WelcomeUpdated]))))"

definition togglewelcome :: "world \<Rightarrow> update \<Rightarrow> world \<times> result" where
  "togglewelcome w u =
     (case require_admin u of
        (False, es) \<Rightarrow> (w, Done es)
      | (True, _) \<Rightarrow>
          (case ensure_chat (u_chat u) (data w) of
             (conf, s) \<Rightarrow>
               (save_data (w\<lparr>data :=
                  store_conf (u_chat u) (conf\<lparr>welcome_on := (\<not> welcome_on conf)\<rparr>) s\<rparr>),
                Done [Reply (WelcomeToggled (\<not> welcome_on conf))])))"

definition start :: "world \<Rightarrow> update \<Rightarrow> world \<times> result" where
  "start w u =
     (save_data (w\<lparr>data :=
        touch_user_and_chat_for_stats (u_user u) (u_chat u) (u_chat_type u) (data w)\<rparr>),
      Done [Reply Hello])"

definition help_cmd :: "world \<Rightarrow> update \<Rightarrow> world \<times> result" where
  "help_cmd w u =
     (save_data (w\<lparr>data :=
        touch_user_and_chat_for_stats (u_user u) (u_chat u) (u_chat_type u) (data w)\<rparr>),
      Done [Reply HelpText])"

section \<open>The message handler: filters, links, flood control\<close>

text \<open>
  The loop \<^verbatim>\<open>for word, cfg in conf.get("filters", {}).items(): if word in text: ...
  return\<close>: the first entry, in the dictionary's order, whose word occurs in the text,
  with its \<^verbatim>\<open>warn\<close> flag.
\<close>

fun first_match :: "(string \<times> bool) list \<Rightarrow> string \<Rightarrow> (string \<times> bool) option" where
  "first_match [] txt = None"
| "first_match ((word, cfg) # rest) txt =
     (if contains word txt then Some (word, cfg) else first_match rest txt)"

text \<open>
  \<^verbatim>\<open>LINK_RE.search(text)\<close> for \<^verbatim>\<open>https?://|t\.me/|telegram\.me/\<close>; the text searched is
  already in lower case.
\<close>

definition has_link :: "string \<Rightarrow> bool" where
  "has_link txt =
     (contains ''http://'' txt \<or> contains ''https://'' txt
      \<or> contains ''t.me/'' txt \<or> contains ''telegram.me/'' txt)"

text \<open>\<^verbatim>\<open>(message.text or message.caption or "")\<close>\<close>

definition text_or_caption :: "update \<Rightarrow> string" where
  "text_or_caption u =
     (case u_text u of
        Some t \<Rightarrow> if t \<noteq> [] then t else (case u_caption u of Some c \<Rightarrow> c | None \<Rightarrow> [])
      | None \<Rightarrow> (case u_caption u of Some c \<Rightarrow> c | None \<Rightarrow> []))"

text \<open>
  The flood control of \<^verbatim>\<open>apply_filters_and_antispam\<close> on the chat's configuration:
  \<open>t0\<close> is the clock read for the default entry of \<^verbatim>\<open>setdefault\<close>, \<open>now\<close> the one
  read after it. The result is the configuration with the user's window updated, and
  whether the user is muted for flooding.
\<close>

definition flood_control :: "chat_conf \<Rightarrow> int \<Rightarrow> real \<Rightarrow> real \<Rightarrow> chat_conf \<times> bool" where
  "flood_control conf uid t0 now =
     (let u0 = (case flood conf uid of None \<Rightarrow> \<lparr>count = 0, ts = t0\<rparr> | Some e \<Rightarrow> e);
          u1 = (if now - ts u0 > 7 then \<lparr>count = 0, ts = now\<rparr> else u0);
          u2 = u1\<lparr>count := count u1 + 1\<rparr>
      in if count u2 \<ge> 5
         then (conf\<lparr>flood := (flood conf)(uid \<mapsto> \<lparr>count = 0, ts = now\<rparr>)\<rparr>, True)
         else (conf\<lparr>flood := (flood conf)(uid \<mapsto> u2)\<rparr>, False))"

definition apply_filters_and_antispam :: "world \<Rightarrow> update \<Rightarrow> world \<times> result" where
  "apply_filters_and_antispam w u =
     (case u_user u of
        None \<Rightarrow> (w, Done [])
      | Some uid \<Rightarrow>
          (let w1 = save_data (w\<lparr>data :=
                      touch_user_and_chat_for_stats (u_user u) (u_chat u) (u_chat_type u) (data w)\<rparr>)
           in case ensure_chat (u_chat u) (data w1) of
                (conf, s) \<Rightarrow>
                  (let txt = lower (text_or_caption u)
                   in case first_match (filters conf) txt of
                        Some (word, cfg) \<Rightarrow>
                          if cfg then
                            (let cur = warn_count conf uid + 1;
                                 conf' = conf\<lparr>warns := (warns conf)(uid \<mapsto> cur)\<rparr>;
                                 w2 = save_data (w1\<lparr>data := store_conf (u_chat u) conf' s\<rparr>)
                             in if cur \<ge> max_warns conf'
                                then (w2, Done [DeleteMessage, BanMember uid None])
                                else (w2, Done [DeleteMessage,
                                                SendMessage (WarnedNotice uid cur (max_warns conf'))]))
                          else (w1\<lparr>data := s\<rparr>, Done [DeleteMessage])
                      | None \<Rightarrow>
                          if antispam_on conf then
                            if has_link txt then (w1\<lparr>data := s\<rparr>, Done [DeleteMessage])
                            else
                              (case flood_control conf uid (u_clock0 u) (u_clock1 u) of
                                 (conf', flagged) \<Rightarrow>
                                   (let w2 = w1\<lparr>data := store_conf (u_chat u) conf' s\<rparr>
                                    in if flagged
                                       then (save_data w2,
                                             Done [RestrictMember uid (Some (u_utcnow u + 3600)),
                                                   SendMessage (FloodMuteNotice uid)])
                                       else (w2, Done [])))
                          else (w1\<lparr>data := s\<rparr>, Done []))))"

text \<open>
  The message handler of \<^verbatim>\<open>telegram_admin_bot_full.py\<close>: the same loop over the filters;
  a match with the \<^verbatim>\<open>warn\<close> flag calls the \<^verbatim>\<open>/warn\<close> handler on the same update.
\<close>

definition filters_and_antispam_enforcer :: "world \<Rightarrow> update \<Rightarrow> world \<times> result" where
  "filters_and_antispam_enforcer w u =
     (if u_chat_type u = Private then (w, Done [])
      else
        (case u_text u of
           None \<Rightarrow> (w, Done [])
         | Some t \<Rightarrow>
             if t = [] then (w, Done [])
             else
               (case ensure_chat (u_chat u) (data w) of
                  (conf, s) \<Rightarrow>
                    (let text_lower = lower t
                     in case first_match (filters conf) text_lower of
                          Some (word, cfg) \<Rightarrow>
                            if cfg then
                              (case warn (w\<lparr>data := s\<rparr>) u of
                                 (w', Done es) \<Rightarrow> (w', Done (DeleteMessage # es))
                               | (w', Raised e) \<Rightarrow> (w', Raised e))
                            else (w\<lparr>data := s\<rparr>, Done [DeleteMessage])
                        | None \<Rightarrow>
                            if antispam_on conf \<and> has_link text_lower
                            then (w\<lparr>data := s\<rparr>, Done [DeleteMessage])
                            else (w\<lparr>data := s\<rparr>, Done [])))))"

section \<open>Running the bot\<close>

datatype handler =
    Start | Help | Mute | Ban | Warn | Warnings | ResetWarns | SetMaxWarns
  | AddFilter | RmFilter | ListFilters | Antispam | Slowmode | SetWelcome | ToggleWelcome
  | GroupMessage

text \<open>
  The handlers registered in \<^verbatim>\<open>main\<close> that read or write the store, with \<^verbatim>\<open>/mute\<close> and
  \<^verbatim>\<open>/ban\<close>. (\<^verbatim>\<open>/unmute\<close>, \<^verbatim>\<open>/unban\<close>, \<^verbatim>\<open>/lock\<close>, \<^verbatim>\<open>/unlock\<close>, \<^verbatim>\<open>/pin\<close> and
  \<^verbatim>\<open>/purge\<close> only call the platform.)
\<close>

fun handle :: "handler \<Rightarrow> world \<Rightarrow> update \<Rightarrow> world \<times> result" where
  "handle Start = start"
| "handle Help = help_cmd"
| "handle Mute = mute"
| "handle Ban = ban"
| "handle Warn = warn"
| "handle Warnings = warnings_cmd"
| "handle ResetWarns = resetwarns"
| "handle SetMaxWarns = setmaxwarns"
| "handle AddFilter = addfilter"
| "handle RmFilter = rmfilter"
| "handle ListFilters = listfilters"
| "handle Antispam = antispam"
| "handle Slowmode = slowmode"
| "handle SetWelcome = setwelcome"
| "handle ToggleWelcome = togglewelcome"
| "handle GroupMessage = apply_filters_and_antispam"

text \<open>
  The updates are handled one after the other; an exception that leaves a handler is
  logged by the dispatcher and what the handler had changed in \<^verbatim>\<open>data\<close> stays.
\<close>

fun run :: "world \<Rightarrow> (handler \<times> update) list \<Rightarrow> world" where
  "run w [] = w"
| "run w ((h, u) # rest) = run (fst (handle h w u)) rest"

section \<open>Sequences of messages\<close>

text \<open>
  The flood control applied to the successive messages of one user, each with its two
  clock readings: the configuration at the end and the verdict of every message.
\<close>

fun flood_msgs :: "chat_conf \<Rightarrow> int \<Rightarrow> (real \<times> real) list \<Rightarrow> chat_conf \<times> bool list" where
  "flood_msgs conf uid [] = (conf, [])"
| "flood_msgs conf uid ((t0, now) # rest) =
     (case flood_control conf uid t0 now of
        (conf', flagged) \<Rightarrow>
          (case flood_msgs conf' uid rest of (conf'', vs) \<Rightarrow> (conf'', flagged # vs)))"

text \<open>The configuration with the user's flood window set to a count and a start.\<close>

definition set_window :: "chat_conf \<Rightarrow> int \<Rightarrow> int \<Rightarrow> real \<Rightarrow> chat_conf" where
  "set_window conf uid n ws = conf\<lparr>flood := (flood conf)(uid \<mapsto> \<lparr>count = n, ts = ws\<rparr>)\<rparr>"

section \<open>Example inputs\<close>

text \<open>A process that has just started with no data file.\<close>

definition fresh_world :: world where
  "fresh_world = \<lparr>data = empty_store, disk = NoFile, writable = True\<rparr>"

text \<open>A command sent in supergroup 1 by its administrator 5, replying to a user or not.\<close>

definition admin_cmd :: "string list \<Rightarrow> int option \<Rightarrow> update" where
  "admin_cmd as target =
     \<lparr>u_chat = 1, u_chat_type = Supergroup, u_user = Some 5, u_is_admin = True,
      u_text = None, u_caption = None, u_reply_to = target, u_args = as, u_lookup = None,
      u_clock0 = 0, u_clock1 = 0, u_utcnow = 0\<rparr>"

text \<open>A text message sent in supergroup 1 by an ordinary member at a given time.\<close>

definition group_msg :: "int \<Rightarrow> string \<Rightarrow> real \<Rightarrow> update" where
  "group_msg uid txt t =
     \<lparr>u_chat = 1, u_chat_type = Supergroup, u_user = Some uid, u_is_admin = False,
      u_text = Some txt, u_caption = None, u_reply_to = None, u_args = [], u_lookup = None,
      u_clock0 = t, u_clock1 = t, u_utcnow = t\<rparr>"

text \<open>A process whose store holds chat 1 with the default configuration, saved to the file.\<close>

definition saved_world :: world where
  "saved_world =
     save_data (fresh_world\<lparr>data := \<lparr>chats = [1 \<mapsto> default_conf], users = {}, groups = {}\<rparr>\<rparr>)"

text \<open>
  A store in which chat 1 has the filter \<open>spam\<close> with the warn flag and user 7 already has
  two warnings, the threshold being the default 3.
\<close>

definition two_warns_world :: world where
  "two_warns_world =
     fresh_world\<lparr>data := \<lparr>chats = [1 \<mapsto> default_conf\<lparr>filters := [(''spam'', True)],
                                                         warns := [7 \<mapsto> 2]\<rparr>],
                            users = {}, groups = {}\<rparr>\<rparr>"

section \<open>The threshold invariant\<close>

text \<open>Every chat's \<^verbatim>\<open>max_warns\<close> is at least \<open>k\<close>.\<close>

definition all_max_warns_ge :: "int \<Rightarrow> store \<Rightarrow> bool" where
  "all_max_warns_ge k s = (\<forall>cid conf. chats s cid = Some conf \<longrightarrow> k \<le> max_warns conf)"

section \<open>Rejected commands\<close>

text \<open>The replies that tell the caller how the command is to be used.\<close>

definition is_usage :: "notice \<Rightarrow> bool" where
  "is_usage n =
     (n \<in> {ReplyToMute, ReplyToBan, ReplyToWarn, SpecifyUser, UsageSetMaxWarns, UsageAddFilter,
            UsageRmFilter, UsageSlowmode, UsageSetWelcome})"

text \<open>A command is rejected when all it does is send such a reply.\<close>

definition rejected :: "result \<Rightarrow> bool" where
  "rejected r = (case r of Done [Reply n] \<Rightarrow> is_usage n | _ \<Rightarrow> False)"

section \<open>Durations on Unicode text\<close>

text \<open>
  A Python string is a sequence of Unicode code points, and three steps of
  \<^verbatim>\<open>parse_duration\<close> look beyond ASCII: \<^verbatim>\<open>str.strip\<close> removes the white space of
  Unicode; under \<^verbatim>\<open>re.IGNORECASE\<close> the class \<^verbatim>\<open>[smhd]\<close> of a string pattern matches
  the eight ASCII letters and also U+017F (LATIN SMALL LETTER LONG S), which the
  regular-expression engine counts as a case variant of \<^verbatim>\<open>s\<close>; and \<^verbatim>\<open>str.lower\<close>
  maps the ASCII capitals to small letters and leaves U+017F as it is. The definitions
  below are \<^verbatim>\<open>parse_duration\<close> again, on code points. Of the decimal digits that
  \<^verbatim>\<open>\d\<close> and \<^verbatim>\<open>int\<close> accept only the ASCII ones are modelled, and of \<^verbatim>\<open>str.lower\<close>
  only its effect on ASCII letters and on U+017F.
\<close>

definition cp_space :: "nat \<Rightarrow> bool" where
  "cp_space c =
     (c \<in> set [9, 10, 11, 12, 13, 28, 29, 30, 31, 32, 133, 160, 5760, 8192, 8193, 8194, 8195,
                8196, 8197, 8198, 8199, 8200, 8201, 8202, 8232, 8233, 8239, 8287, 12288])"

definition cp_strip :: "nat list \<Rightarrow> nat list" where
  "cp_strip s = rev (dropWhile cp_space (rev (dropWhile cp_space s)))"

definition cp_digit :: "nat \<Rightarrow> bool" where
  "cp_digit c = (48 \<le> c \<and> c \<le> 57)"

definition cp_int_of_digits :: "nat list \<Rightarrow> int" where
  "cp_int_of_digits ds = foldl (\<lambda>a c. 10 * a + (int c - 48)) 0 ds"

definition cp_lower :: "nat \<Rightarrow> nat" where
  "cp_lower c = (if 65 \<le> c \<and> c \<le> 90 then c + 32 else c)"

definition cp_unit_class :: "nat \<Rightarrow> bool" where
  "cp_unit_class c = (cp_lower c \<in> set [115, 109, 104, 100] \<or> c = 383)"

definition cp_fullmatch_duration :: "nat list \<Rightarrow> (nat list \<times> nat) option" where
  "cp_fullmatch_duration t =
     (let ds = takeWhile cp_digit t; rest = dropWhile cp_digit t
      in case rest of
           [u] \<Rightarrow> if ds \<noteq> [] \<and> cp_unit_class u then Some (ds, u) else None
         | _ \<Rightarrow> None)"

definition cp_unit_mult :: "nat \<Rightarrow> exn + int" where
  "cp_unit_mult u =
     (case map_of [(115, 1), (109, 60), (104, 3600), (100, 86400)] u of
        None \<Rightarrow> Inl KeyError
      | Some k \<Rightarrow> Inr k)"

definition parse_duration_cp :: "nat list option \<Rightarrow> exn + int option" where
  "parse_duration_cp so =
     (case so of
        None \<Rightarrow> Inr None
      | Some s \<Rightarrow>
          if s = [] then Inr None
          else (case cp_fullmatch_duration (cp_strip s) of
                  None \<Rightarrow> Inr None
                | Some (ds, u) \<Rightarrow>
                    (case cp_unit_mult (cp_lower u) of
                       Inl e \<Rightarrow> Inl e
                     | Inr mult \<Rightarrow> Inr (Some (cp_int_of_digits ds * mult)))))"

section \<open>Flood control\<close>

lemma count_update_window:
  "(e::flood_window)\<lparr>count := n\<rparr> = \<lparr>count = n, ts = ts e\<rparr>"
  by (cases e) simp

lemma flood_control_fresh:
  assumes "flood conf uid = None \<or> (\<exists>e. flood conf uid = Some e \<and> now - ts e > 7)"
  shows "flood_control conf uid t0 now =
           (set_window conf uid 1 (if flood conf uid = None \<and> \<not> now - t0 > 7 then t0 else now), False)"
  using assms by (auto simp: flood_control_def set_window_def Let_def)

lemma flood_control_within:
  assumes "flood conf uid = Some e" and "\<not> now - ts e > 7"
  shows "flood_control conf uid t0 now =
           (if count e + 1 \<ge> 5 then (set_window conf uid 0 now, True)
            else (set_window conf uid (count e + 1) (ts e), False))"
  using assms by (auto simp: flood_control_def set_window_def Let_def count_update_window)

lemma set_window_twice [simp]:
  "set_window (set_window conf uid n s) uid m t = set_window conf uid m t"
  by (simp add: set_window_def)

lemma flood_set_window [simp]:
  "flood (set_window conf uid n s) uid = Some \<lparr>count = n, ts = s\<rparr>"
  by (simp add: set_window_def)

lemma flood_control_counting:
  assumes "\<not> now - s > 7"
  shows "flood_control (set_window conf uid n s) uid t0 now =
           (if n + 1 \<ge> 5 then (set_window conf uid 0 now, True)
            else (set_window conf uid (n + 1) s, False))"
  using assms by (simp add: flood_control_within [where e = "\<lparr>count = n, ts = s\<rparr>"])

lemma flood_control_after_flag:
  "\<exists>st. flood_control (set_window conf uid 0 s) uid t0 now = (set_window conf uid 1 st, False)"
  by (cases "now - s > 7") (auto simp: flood_control_def set_window_def Let_def)

text \<open>
  C1. Flood control, for the messages of one user that reach it. When the user has no
  window yet, or the window started more than 7 seconds before \<open>now\<close>, the message counts
  as 1 and is not flagged; otherwise the count goes up by one, and the message is flagged
  exactly when the new count reaches 5, which resets the window to count 0 starting at
  \<open>now\<close>. So of six messages, the first opening a window and the next four falling inside
  it, the verdicts are: four not flagged, the fifth flagged, the sixth not flagged with
  a count of 1 again.
\<close>

theorem flood_detector_window:
  "(flood conf uid = None \<or> (\<exists>e. flood conf uid = Some e \<and> b1 - ts e > 7) \<longrightarrow>
      (\<exists>ws. (ws = a1 \<or> ws = b1)
         \<and> flood_control conf uid a1 b1 = (set_window conf uid 1 ws, False)
         \<and> (b2 - ws \<le> 7 \<and> b3 - ws \<le> 7 \<and> b4 - ws \<le> 7 \<and> b5 - ws \<le> 7 \<longrightarrow>
              snd (flood_msgs conf uid [(a1, b1), (a2, b2), (a3, b3), (a4, b4), (a5, b5), (a6, b6)])
                = [False, False, False, False, True, False]
              \<and> fst (flood_msgs conf uid [(a1, b1), (a2, b2), (a3, b3), (a4, b4)])
                  = set_window conf uid 4 ws
              \<and> fst (flood_msgs conf uid [(a1, b1), (a2, b2), (a3, b3), (a4, b4), (a5, b5)])
                  = set_window conf uid 0 b5
              \<and> (\<exists>st. fst (flood_msgs conf uid
                            [(a1, b1), (a2, b2), (a3, b3), (a4, b4), (a5, b5), (a6, b6)])
                        = set_window conf uid 1 st))))
   \<and> (\<forall>e. flood conf uid = Some e \<and> \<not> b1 - ts e > 7 \<longrightarrow>
          flood_control conf uid a1 b1 =
            (if count e + 1 \<ge> 5 then (set_window conf uid 0 b1, True)
             else (set_window conf uid (count e + 1) (ts e), False)))"
proof (intro conjI impI allI)
  assume fresh: "flood conf uid = None \<or> (\<exists>e. flood conf uid = Some e \<and> b1 - ts e > 7)"
  define ws where "ws = (if flood conf uid = None \<and> \<not> b1 - a1 > 7 then a1 else b1)"
  have first: "flood_control conf uid a1 b1 = (set_window conf uid 1 ws, False)"
    unfolding ws_def using fresh by (rule flood_control_fresh)
  have burst: "snd (flood_msgs conf uid [(a1, b1), (a2, b2), (a3, b3), (a4, b4), (a5, b5), (a6, b6)])
                = [False, False, False, False, True, False]
              \<and> fst (flood_msgs conf uid [(a1, b1), (a2, b2), (a3, b3), (a4, b4)])
                  = set_window conf uid 4 ws
              \<and> fst (flood_msgs conf uid [(a1, b1), (a2, b2), (a3, b3), (a4, b4), (a5, b5)])
                  = set_window conf uid 0 b5
              \<and> (\<exists>st. fst (flood_msgs conf uid
                            [(a1, b1), (a2, b2), (a3, b3), (a4, b4), (a5, b5), (a6, b6)])
                        = set_window conf uid 1 st)"
    if within: "b2 - ws \<le> 7 \<and> b3 - ws \<le> 7 \<and> b4 - ws \<le> 7 \<and> b5 - ws \<le> 7"
  proof -
    obtain st where last: "flood_control (set_window conf uid 0 b5) uid a6 b6 = (set_window conf uid 1 st, False)"
      using flood_control_after_flag by blast
    have n2: "\<not> b2 - ws > 7" and n3: "\<not> b3 - ws > 7"
      and n4: "\<not> b4 - ws > 7" and n5: "\<not> b5 - ws > 7"
      using within by auto
    have "snd (flood_msgs conf uid [(a1, b1), (a2, b2), (a3, b3), (a4, b4), (a5, b5), (a6, b6)])
            = [False, False, False, False, True, False]"
      by (simp add: first flood_control_counting [OF n2] flood_control_counting [OF n3]
            flood_control_counting [OF n4] flood_control_counting [OF n5] last)
    moreover have "fst (flood_msgs conf uid [(a1, b1), (a2, b2), (a3, b3), (a4, b4)])
            = set_window conf uid 4 ws"
      by (simp add: first flood_control_counting [OF n2] flood_control_counting [OF n3]
            flood_control_counting [OF n4])
    moreover have "fst (flood_msgs conf uid [(a1, b1), (a2, b2), (a3, b3), (a4, b4), (a5, b5)])
            = set_window conf uid 0 b5"
      by (simp add: first flood_control_counting [OF n2] flood_control_counting [OF n3]
            flood_control_counting [OF n4] flood_control_counting [OF n5])
    moreover have "fst (flood_msgs conf uid
                     [(a1, b1), (a2, b2), (a3, b3), (a4, b4), (a5, b5), (a6, b6)])
            = set_window conf uid 1 st"
      by (simp add: first flood_control_counting [OF n2] flood_control_counting [OF n3]
            flood_control_counting [OF n4] flood_control_counting [OF n5] last)
    ultimately show ?thesis by blast
  qed
  show "\<exists>ws. (ws = a1 \<or> ws = b1)
         \<and> flood_control conf uid a1 b1 = (set_window conf uid 1 ws, False)
         \<and> (b2 - ws \<le> 7 \<and> b3 - ws \<le> 7 \<and> b4 - ws \<le> 7 \<and> b5 - ws \<le> 7 \<longrightarrow>
              snd (flood_msgs conf uid [(a1, b1), (a2, b2), (a3, b3), (a4, b4), (a5, b5), (a6, b6)])
                = [False, False, False, False, True, False]
              \<and> fst (flood_msgs conf uid [(a1, b1), (a2, b2), (a3, b3), (a4, b4)])
                  = set_window conf uid 4 ws
              \<and> fst (flood_msgs conf uid [(a1, b1), (a2, b2), (a3, b3), (a4, b4), (a5, b5)])
                  = set_window conf uid 0 b5
              \<and> (\<exists>st. fst (flood_msgs conf uid
                            [(a1, b1), (a2, b2), (a3, b3), (a4, b4), (a5, b5), (a6, b6)])
                        = set_window conf uid 1 st))"
    using first burst by (intro exI [of _ ws]) (auto simp: ws_def)
next
  fix e
  assume "flood conf uid = Some e \<and> \<not> b1 - ts e > 7"
  then show "flood_control conf uid a1 b1 =
            (if count e + 1 \<ge> 5 then (set_window conf uid 0 b1, True)
             else (set_window conf uid (count e + 1) (ts e), False))"
    using flood_control_within by blast
qed

theorem flood_detector_window_witness:
  "flood default_conf 7 = None
   \<and> snd (flood_msgs default_conf 7
            [(100, 100), (101, 101), (102, 102), (103, 103), (104, 104), (105, 105)])
       = [False, False, False, False, True, False]
   \<and> fst (flood_msgs default_conf 7 [(100, 100), (101, 101), (102, 102), (103, 103), (104, 104)])
       = set_window default_conf 7 0 104
   \<and> flood (set_window default_conf 7 2 100) 7 = Some \<lparr>count = 2, ts = 100\<rparr>
   \<and> \<not> (103::real) - ts \<lparr>count = 2, ts = 100\<rparr> > 7
   \<and> flood_control (set_window default_conf 7 2 100) 7 103 103
       = (set_window default_conf 7 3 100, False)"
proof -
  have none: "flood default_conf 7 = None"
    by (simp add: default_conf_def)
  have some: "flood (set_window default_conf 7 2 100) 7 = Some \<lparr>count = 2, ts = 100\<rparr>"
    by (simp add: set_window_def)
  show ?thesis
    using none some
      flood_detector_window [where conf = default_conf and uid = 7
        and ?a1.0 = 100 and ?b1.0 = 100 and ?a2.0 = 101 and ?b2.0 = 101 and ?a3.0 = 102
        and ?b3.0 = 102 and ?a4.0 = 103 and ?b4.0 = 103 and ?a5.0 = 104 and ?b5.0 = 104
        and ?a6.0 = 105 and ?b6.0 = 105]
      flood_detector_window [where conf = "set_window default_conf 7 2 100" and uid = 7
        and ?a1.0 = 103 and ?b1.0 = 103]
    by (simp del: flood_msgs.simps)
qed

section \<open>Filter matching\<close>

lemma starts_with_prefix: "starts_with w t \<longleftrightarrow> prefix w t"
  by (induction w t rule: starts_with.induct) simp_all

lemma contains_sublist: "contains w t \<longleftrightarrow> sublist w t"
  by (induction t) (simp_all add: starts_with_prefix sublist_Cons_right)

lemma first_match_Some_iff:
  "first_match fs t = Some (w, c) \<longleftrightarrow>
     (\<exists>pre post. fs = pre @ (w, c) # post \<and> contains w t \<and> (\<forall>(w', c') \<in> set pre. \<not> contains w' t))"
proof (induction fs)
  case Nil
  then show ?case by simp
next
  case (Cons p fs)
  obtain w0 c0 where p: "p = (w0, c0)" by (cases p)
  show ?case
  proof (cases "contains w0 t")
    case True
    have "(\<exists>pre post. (w0, c0) # fs = pre @ (w, c) # post \<and> contains w t
             \<and> (\<forall>(w', c') \<in> set pre. \<not> contains w' t)) \<longleftrightarrow> (w0, c0) = (w, c)"
    proof
      assume "\<exists>pre post. (w0, c0) # fs = pre @ (w, c) # post \<and> contains w t
             \<and> (\<forall>(w', c') \<in> set pre. \<not> contains w' t)"
      then obtain pre post where eq: "(w0, c0) # fs = pre @ (w, c) # post"
        and no: "\<forall>(w', c') \<in> set pre. \<not> contains w' t" by blast
      show "(w0, c0) = (w, c)"
      proof (cases pre)
        case Nil
        with eq show ?thesis by simp
      next
        case (Cons q qs)
        with eq have "q = (w0, c0)" by simp
        with Cons no True show ?thesis by auto
      qed
    next
      assume "(w0, c0) = (w, c)"
      with True have "(w0, c0) # fs = [] @ (w, c) # fs \<and> contains w t" by simp
      then show "\<exists>pre post. (w0, c0) # fs = pre @ (w, c) # post \<and> contains w t
             \<and> (\<forall>(w', c') \<in> set pre. \<not> contains w' t)"
        by (intro exI [of _ "[]"] exI [of _ fs]) simp
    qed
    with True p show ?thesis by auto
  next
    case False
    have "(\<exists>pre post. (w0, c0) # fs = pre @ (w, c) # post \<and> contains w t
             \<and> (\<forall>(w', c') \<in> set pre. \<not> contains w' t))
          \<longleftrightarrow> (\<exists>pre post. fs = pre @ (w, c) # post \<and> contains w t
             \<and> (\<forall>(w', c') \<in> set pre. \<not> contains w' t))" (is "?L \<longleftrightarrow> ?R")
    proof
      assume ?L
      then obtain pre post where eq: "(w0, c0) # fs = pre @ (w, c) # post"
        and cw: "contains w t"
        and no: "\<forall>(w', c') \<in> set pre. \<not> contains w' t" by blast
      show ?R
      proof (cases pre)
        case Nil
        with eq cw False show ?thesis by simp
      next
        case (Cons q qs)
        with eq have "fs = qs @ (w, c) # post" by simp
        moreover from Cons no have "\<forall>(w', c') \<in> set qs. \<not> contains w' t" by simp
        ultimately show ?thesis using cw by blast
      qed
    next
      assume ?R
      then obtain pre post where eq: "fs = pre @ (w, c) # post"
        and cw: "contains w t"
        and no: "\<forall>(w', c') \<in> set pre. \<not> contains w' t" by blast
      from eq have "(w0, c0) # fs = ((w0, c0) # pre) @ (w, c) # post" by simp
      moreover from no False have "\<forall>(w', c') \<in> set ((w0, c0) # pre). \<not> contains w' t" by simp
      ultimately show ?L using cw by blast
    qed
    with False p Cons.IH show ?thesis by simp
  qed
qed

lemma first_match_None_iff:
  "first_match fs t = None \<longleftrightarrow> (\<forall>(w, c) \<in> set fs. \<not> contains w t)"
proof (induction fs)
  case Nil
  then show ?case by simp
next
  case (Cons p fs)
  then show ?case by (cases p) simp
qed

lemma first_match_update_new:
  "first_match fs t = Some m \<Longrightarrow> w \<notin> fst ` set fs \<Longrightarrow>
     first_match (AList.update w c fs) t = Some m"
proof (induction fs)
  case Nil
  then show ?case by simp
next
  case (Cons p fs)
  then show ?case by (cases p) (auto split: if_splits)
qed

lemma update_new_key: "w \<notin> fst ` set fs \<Longrightarrow> AList.update w c fs = fs @ [(w, c)]"
  by (induction fs) auto

text \<open>
  C4. Filter matching is the function \<open>first_match\<close> of the chat's filters and the
  lower-cased text, as both message handlers apply it. It returns an entry exactly when
  that entry's word occurs in the text as a contiguous substring and no entry before it
  in the dictionary's order does; it returns nothing exactly when no word occurs. The
  filter \<open>spam\<close> matches \<open>this is SPAMMY\<close>. A word added later goes to the end of the
  order and never displaces an earlier match.
\<close>

theorem filter_first_match:
  "(first_match fs (lower txt) = Some (w, c) \<longleftrightarrow>
      (\<exists>pre post. fs = pre @ (w, c) # post \<and> sublist w (lower txt)
         \<and> (\<forall>(w', c') \<in> set pre. \<not> sublist w' (lower txt))))
   \<and> (first_match fs (lower txt) = None \<longleftrightarrow> (\<forall>(w', c') \<in> set fs. \<not> sublist w' (lower txt)))
   \<and> first_match [(''spam'', c)] (lower ''this is SPAMMY'') = Some (''spam'', c)
   \<and> (first_match fs (lower txt) = Some m \<and> w2 \<notin> fst ` set fs \<longrightarrow>
        AList.update w2 c2 fs = fs @ [(w2, c2)]
        \<and> first_match (AList.update w2 c2 fs) (lower txt) = Some m)"
proof (intro conjI impI)
  show "first_match fs (lower txt) = Some (w, c) \<longleftrightarrow>
      (\<exists>pre post. fs = pre @ (w, c) # post \<and> sublist w (lower txt)
         \<and> (\<forall>(w', c') \<in> set pre. \<not> sublist w' (lower txt)))"
    using first_match_Some_iff [of fs "lower txt" w c] by (simp only: contains_sublist)
  show "first_match fs (lower txt) = None \<longleftrightarrow> (\<forall>(w', c') \<in> set fs. \<not> sublist w' (lower txt))"
    using first_match_None_iff [of fs "lower txt"] by (simp only: contains_sublist)
  show "first_match [(''spam'', c)] (lower ''this is SPAMMY'') = Some (''spam'', c)"
    by (simp add: lower_def lower_char_def)
next
  assume a: "first_match fs (lower txt) = Some m \<and> w2 \<notin> fst ` set fs"
  then show "AList.update w2 c2 fs = fs @ [(w2, c2)]"
    by (simp add: update_new_key)
  from a show "first_match (AList.update w2 c2 fs) (lower txt) = Some m"
    by (simp add: first_match_update_new)
qed

theorem filter_first_match_witness:
  "first_match [(''is'', False), (''spam'', True)] (lower ''this is SPAMMY'') = Some (''is'', False)
   \<and> (\<exists>pre post. [(''is'', False), (''spam'', True)] = pre @ (''is'', False) # post
         \<and> sublist ''is'' (lower ''this is SPAMMY'')
         \<and> (\<forall>(w', c') \<in> set pre. \<not> sublist w' (lower ''this is SPAMMY'')))
   \<and> ''cat'' \<notin> fst ` set [(''is'', False), (''spam'', True)]
   \<and> first_match (AList.update ''cat'' True [(''is'', False), (''spam'', True)])
        (lower ''this is SPAMMY'') = Some (''is'', False)"
proof -
  have m: "first_match [(''is'', False), (''spam'', True)] (lower ''this is SPAMMY'')
             = Some (''is'', False)"
    by (simp add: lower_def lower_char_def)
  have k: "''cat'' \<notin> fst ` set [(''is'', False), (''spam'', True)]"
    by simp
  have t: "(first_match [(''is'', False), (''spam'', True)] (lower ''this is SPAMMY'')
              = Some (''is'', False) \<longrightarrow>
            (\<exists>pre post. [(''is'', False), (''spam'', True)] = pre @ (''is'', False) # post
               \<and> sublist ''is'' (lower ''this is SPAMMY'')
               \<and> (\<forall>(w', c') \<in> set pre. \<not> sublist w' (lower ''this is SPAMMY''))))
         \<and> (first_match [(''is'', False), (''spam'', True)] (lower ''this is SPAMMY'')
              = Some (''is'', False)
            \<and> ''cat'' \<notin> fst ` set [(''is'', False), (''spam'', True)] \<longrightarrow>
            first_match (AList.update ''cat'' True [(''is'', False), (''spam'', True)])
              (lower ''this is SPAMMY'') = Some (''is'', False))"
    using filter_first_match [of "[(''is'', False), (''spam'', True)]" "''this is SPAMMY''"
        "''is''" False "(''is'', False)" "''cat''" True]
    by blast
  from t m k show ?thesis by blast
qed

section \<open>Durations\<close>

lemma lower_char_unit:
  "lower_char u \<in> set ''smhd'' \<longleftrightarrow> u \<in> set ''smhdSMHD''"
  by (simp add: lower_char_def split: option.split)

lemma unit_not_digit: "u \<in> set ''smhdSMHD'' \<Longrightarrow> \<not> is_digit u"
  by (auto simp: is_digit_def)

lemma unit_mult_lower:
  assumes "u \<in> set ''smhdSMHD''"
  shows "unit_mult (lower_char u) =
       Inr (if u \<in> set ''sS'' then 1 else if u \<in> set ''mM'' then 60
            else if u \<in> set ''hH'' then 3600 else 86400)"
proof -
  from assms consider "u = CHR ''s''" | "u = CHR ''m''" | "u = CHR ''h''" | "u = CHR ''d''"
    | "u = CHR ''S''" | "u = CHR ''M''" | "u = CHR ''H''" | "u = CHR ''D''"
    by auto
  then show ?thesis
    by cases (simp_all add: unit_mult_def lower_char_def)
qed

lemma fullmatch_duration_iff:
  "fullmatch_duration t = Some (ds, u) \<longleftrightarrow>
     t = ds @ [u] \<and> ds \<noteq> [] \<and> list_all is_digit ds \<and> u \<in> set ''smhdSMHD''"
proof
  assume m: "fullmatch_duration t = Some (ds, u)"
  then have rest: "dropWhile is_digit t = [u]" and ds: "ds = takeWhile is_digit t"
    and ne: "ds \<noteq> []" and un: "lower_char u \<in> set ''smhd''"
    by (auto simp: fullmatch_duration_def Let_def split: list.splits if_splits)
  have "t = takeWhile is_digit t @ dropWhile is_digit t" by simp
  with rest ds have "t = ds @ [u]" by simp
  moreover have "list_all is_digit ds"
    unfolding ds list_all_iff using set_takeWhileD by fastforce
  ultimately show "t = ds @ [u] \<and> ds \<noteq> [] \<and> list_all is_digit ds \<and> u \<in> set ''smhdSMHD''"
    using ne un lower_char_unit by blast
next
  assume a: "t = ds @ [u] \<and> ds \<noteq> [] \<and> list_all is_digit ds \<and> u \<in> set ''smhdSMHD''"
  then have nd: "\<not> is_digit u" using unit_not_digit by blast
  from a have all: "\<forall>x \<in> set ds. is_digit x" by (simp add: list_all_iff)
  have tw: "takeWhile is_digit (ds @ [u]) = ds" using all nd by (simp add: takeWhile_tail)
  have dw: "dropWhile is_digit (ds @ [u]) = [u]" using all nd by simp
  from a have un: "lower_char u \<in> set ''smhd''" using lower_char_unit by blast
  show "fullmatch_duration t = Some (ds, u)"
    using a tw dw un by (simp add: fullmatch_duration_def Let_def del: set_simps)
qed

lemma parse_duration_Some_iff:
  "parse_duration (Some s) = Inr (Some n) \<longleftrightarrow>
     (\<exists>ds u. strip s = ds @ [u] \<and> ds \<noteq> [] \<and> list_all is_digit ds \<and> u \<in> set ''smhdSMHD''
        \<and> n = int_of_digits ds *
              (if u \<in> set ''sS'' then 1 else if u \<in> set ''mM'' then 60
               else if u \<in> set ''hH'' then 3600 else 86400))"
  (is "?L \<longleftrightarrow> ?R")
proof -
  let ?shape = "\<lambda>ds u. strip s = ds @ [u] \<and> ds \<noteq> [] \<and> list_all is_digit ds
                  \<and> u \<in> set ''smhdSMHD''"
  let ?val = "\<lambda>ds u. int_of_digits ds *
              (if u \<in> set ''sS'' then 1 else if u \<in> set ''mM'' then 60
               else if u \<in> set ''hH'' then 3600 else (86400::int))"
  show ?thesis
proof (cases "fullmatch_duration (strip s)")
  case None
  have no: "\<not> ?shape ds u" for ds u
  proof
    assume "?shape ds u"
    then have "fullmatch_duration (strip s) = Some (ds, u)"
      by (rule iffD2 [OF fullmatch_duration_iff])
    with None show False by simp
  qed
  have "parse_duration (Some s) = Inr None"
    using None by (simp add: parse_duration_def)
  then have "\<not> ?L" by simp
  with no show ?thesis by blast
next
  case (Some p)
  obtain ds0 u0 where p: "p = (ds0, u0)" by (cases p)
  have shape: "?shape ds0 u0"
    using Some p by (simp only: fullmatch_duration_iff [symmetric])
  then have s1: "strip s = ds0 @ [u0]" and s4: "u0 \<in> set ''smhdSMHD''" by blast+
  have sne: "s \<noteq> []"
  proof
    assume "s = []"
    then have "strip s = []" by (simp add: strip_def)
    with s1 show False by simp
  qed
  have val: "parse_duration (Some s) = Inr (Some (?val ds0 u0))"
    unfolding parse_duration_def using Some p sne
    by (simp only: option.case if_False unit_mult_lower [OF s4] prod.case sum.case)
  show ?thesis
  proof
    assume ?L
    with val have "n = ?val ds0 u0" by (simp only: sum.inject option.inject)
    with shape show ?R by blast
  next
    assume ?R
    then obtain ds u where e: "strip s = ds @ [u]" and n: "n = ?val ds u" by blast
    from e s1 have "ds = ds0 \<and> u = u0" by simp
    with n val show ?L by (simp only:)
  qed
qed
qed

lemma parse_duration_never_raises: "parse_duration so \<noteq> Inl e"
proof (cases so)
  case None
  then show ?thesis by (simp add: parse_duration_def)
next
  case (Some s)
  show ?thesis
  proof (cases "fullmatch_duration (strip s)")
    case None
    with Some show ?thesis by (simp add: parse_duration_def)
  next
    case (Some p)
    obtain ds0 u0 where p: "p = (ds0, u0)" by (cases p)
    with Some have "u0 \<in> set ''smhdSMHD''"
      using fullmatch_duration_iff [of "strip s" ds0 u0] by blast
    from unit_mult_lower [OF this] Some p \<open>so = Some s\<close> show ?thesis
      by (simp add: parse_duration_def del: set_simps)
  qed
qed

lemma duration_arg_None:
  "parse_duration (Some a) = Inr None \<Longrightarrow> duration_arg (a # rest) = Inr None"
  by (simp add: duration_arg_def)

text \<open>
  On text of the code points 0 to 255, \<open>parse_duration\<close> gives a number of seconds exactly when the argument, stripped,
  is one or more digits followed by one of the letters s, m, h, d in either case, and the
  number is the digits' value times 1, 60, 3600 or 86400; for every other string it gives
  no duration (and it never raises). With an argument that gives no duration, \<^verbatim>\<open>/mute\<close>
  and \<^verbatim>\<open>/ban\<close> by an administrator replying to a user are carried out without an
  \<^verbatim>\<open>until_date\<close>, that is with no expiry, and nothing is rejected.
\<close>

theorem parse_duration_units:
  "(parse_duration (Some s) = Inr (Some n) \<longleftrightarrow>
      (\<exists>ds u. strip s = ds @ [u] \<and> ds \<noteq> [] \<and> list_all is_digit ds \<and> u \<in> set ''smhdSMHD''
         \<and> n = int_of_digits ds *
               (if u \<in> set ''sS'' then 1 else if u \<in> set ''mM'' then 60
                else if u \<in> set ''hH'' then 3600 else 86400)))
   \<and> (parse_duration (Some s) = Inr None \<longleftrightarrow>
        \<not> (\<exists>ds u. strip s = ds @ [u] \<and> ds \<noteq> [] \<and> list_all is_digit ds \<and> u \<in> set ''smhdSMHD''))
   \<and> (u_user u = Some admin \<and> u_is_admin u \<and> u_reply_to u = Some target
        \<and> u_args u = a # rest \<and> parse_duration (Some a) = Inr None \<longrightarrow>
        mute w u = (w, Done [RestrictMember target None, Reply (MutedNotice target None)])
        \<and> ban w u = (w, Done [BanMember target None, Reply (BannedNotice target None)]))"
proof (intro conjI impI)
  show some: "parse_duration (Some s) = Inr (Some n) \<longleftrightarrow>
      (\<exists>ds u. strip s = ds @ [u] \<and> ds \<noteq> [] \<and> list_all is_digit ds \<and> u \<in> set ''smhdSMHD''
         \<and> n = int_of_digits ds *
               (if u \<in> set ''sS'' then 1 else if u \<in> set ''mM'' then 60
                else if u \<in> set ''hH'' then 3600 else 86400))" for n
    by (rule parse_duration_Some_iff)
  show "parse_duration (Some s) = Inr None \<longleftrightarrow>
        \<not> (\<exists>ds u. strip s = ds @ [u] \<and> ds \<noteq> [] \<and> list_all is_digit ds \<and> u \<in> set ''smhdSMHD'')"
  proof
    assume none: "parse_duration (Some s) = Inr None"
    show "\<not> (\<exists>ds u. strip s = ds @ [u] \<and> ds \<noteq> [] \<and> list_all is_digit ds \<and> u \<in> set ''smhdSMHD'')"
    proof
      assume "\<exists>ds u. strip s = ds @ [u] \<and> ds \<noteq> [] \<and> list_all is_digit ds \<and> u \<in> set ''smhdSMHD''"
      then obtain ds u where "strip s = ds @ [u] \<and> ds \<noteq> [] \<and> list_all is_digit ds
          \<and> u \<in> set ''smhdSMHD''" by blast
      then have "parse_duration (Some s) = Inr (Some (int_of_digits ds *
               (if u \<in> set ''sS'' then 1 else if u \<in> set ''mM'' then 60
                else if u \<in> set ''hH'' then 3600 else 86400)))"
        using parse_duration_Some_iff by blast
      with none show False by simp
    qed
  next
    assume no: "\<not> (\<exists>ds u. strip s = ds @ [u] \<and> ds \<noteq> [] \<and> list_all is_digit ds \<and> u \<in> set ''smhdSMHD'')"
    obtain r where r: "parse_duration (Some s) = Inr r"
      using parse_duration_never_raises [of "Some s"] by (cases "parse_duration (Some s)") auto
    show "parse_duration (Some s) = Inr None"
    proof (cases r)
      case None
      with r show ?thesis by simp
    next
      case (Some k)
      with r have "parse_duration (Some s) = Inr (Some k)" by simp
      then have "\<exists>ds u. strip s = ds @ [u] \<and> ds \<noteq> [] \<and> list_all is_digit ds \<and> u \<in> set ''smhdSMHD''"
        using parse_duration_Some_iff [of s k] by blast
      with no show ?thesis by blast
    qed
  qed
next
  assume a: "u_user u = Some admin \<and> u_is_admin u \<and> u_reply_to u = Some target
        \<and> u_args u = a # rest \<and> parse_duration (Some a) = Inr None"
  then have d: "duration_arg (u_args u) = Inr None"
    by (simp add: duration_arg_None)
  from a have adm: "require_admin u = (True, [])"
    by (simp add: require_admin_def)
  from a d adm show "mute w u = (w, Done [RestrictMember target None, Reply (MutedNotice target None)])"
    by (simp add: mute_def until_date_def shown_duration_def)
  from a d adm show "ban w u = (w, Done [BanMember target None, Reply (BannedNotice target None)])"
    by (simp add: ban_def until_date_def shown_duration_def)
qed

theorem parse_duration_units_witness:
  "parse_duration (Some ''10m'') = Inr (Some 600)
   \<and> (\<exists>ds u. strip ''10m'' = ds @ [u] \<and> ds \<noteq> [] \<and> list_all is_digit ds \<and> u \<in> set ''smhdSMHD'')
   \<and> parse_duration (Some ''abc'') = Inr None
   \<and> mute fresh_world (admin_cmd [''abc''] (Some 7))
       = (fresh_world, Done [RestrictMember 7 None, Reply (MutedNotice 7 None)])
   \<and> ban fresh_world (admin_cmd [''abc''] (Some 7))
       = (fresh_world, Done [BanMember 7 None, Reply (BannedNotice 7 None)])"
proof -
  have a: "parse_duration (Some ''10m'') = Inr (Some 600)"
    by (simp add: parse_duration_def fullmatch_duration_def strip_def is_space_def is_digit_def
          lower_char_def unit_mult_def int_of_digits_def digit_val_def)
  have b: "parse_duration (Some ''abc'') = Inr None"
    by (simp add: parse_duration_def fullmatch_duration_def strip_def is_space_def is_digit_def)
  have c: "u_user (admin_cmd [''abc''] (Some 7)) = Some 5 \<and> u_is_admin (admin_cmd [''abc''] (Some 7))
      \<and> u_reply_to (admin_cmd [''abc''] (Some 7)) = Some 7
      \<and> u_args (admin_cmd [''abc''] (Some 7)) = ''abc'' # []"
    by (simp add: admin_cmd_def)
  have "\<exists>ds u. strip ''10m'' = ds @ [u] \<and> ds \<noteq> [] \<and> list_all is_digit ds \<and> u \<in> set ''smhdSMHD''"
    using parse_duration_units [where s = "''10m''" and n = 600] a by blast
  moreover have "mute fresh_world (admin_cmd [''abc''] (Some 7))
       = (fresh_world, Done [RestrictMember 7 None, Reply (MutedNotice 7 None)])
   \<and> ban fresh_world (admin_cmd [''abc''] (Some 7))
       = (fresh_world, Done [BanMember 7 None, Reply (BannedNotice 7 None)])"
    using parse_duration_units [where u = "admin_cmd [''abc''] (Some 7)" and admin = 5
        and target = 7 and a = "''abc''" and rest = "[]" and w = fresh_world] b c
    by blast
  ultimately show ?thesis using a b by blast
qed

text \<open>
  C10. An argument such as \<^verbatim>\<open>5\<close> followed by U+017F is matched by the regular
  expression, its unit is not a key of the table of multipliers, and the lookup raises
  \<^verbatim>\<open>KeyError\<close>: \<^verbatim>\<open>parse_duration\<close> neither gives seconds nor gives no duration.
\<close>

theorem long_s_duration_raises:
  "parse_duration_cp (Some [53, 115]) = Inr (Some 5)
   \<and> parse_duration_cp (Some [53, 83]) = Inr (Some 5)
   \<and> parse_duration_cp (Some [53, 120]) = Inr None
   \<and> parse_duration_cp (Some [53, 383]) = Inl KeyError"
  by (simp add: parse_duration_cp_def cp_fullmatch_duration_def cp_strip_def cp_space_def
        cp_digit_def cp_unit_class_def cp_lower_def cp_unit_mult_def cp_int_of_digits_def)

text \<open>An exception raised by \<^verbatim>\<open>parse_duration\<close> leaves \<^verbatim>\<open>/mute\<close> and \<^verbatim>\<open>/ban\<close>: nothing is done.\<close>

lemma mute_ban_propagate:
  assumes "u_user u = Some admin" and "u_is_admin u" and "u_reply_to u = Some target"
    and "u_args u = a # rest" and "parse_duration (Some a) = Inl e"
  shows "mute w u = (w, Raised e) \<and> ban w u = (w, Raised e)"
  using assms by (simp add: mute_def ban_def require_admin_def duration_arg_def)

section \<open>Loading and saving\<close>

lemma load_data_total: "\<exists>w'. load_data w = Inr w'"
  by (simp add: load_data_def open_and_parse_def set_defaults_def
        split: data_file.split sum.split exn.split parsed.split)

text \<open>
  C8. \<open>load_data\<close> always returns (no exception leaves it), whatever the data file
  holds; and when the file is missing, cannot be opened, is not UTF-8 text, is not JSON,
  or is JSON whose top level is not an object, the store it leaves is the empty store.
\<close>

theorem load_data_defaults_to_empty:
  "(\<exists>w'. load_data w = Inr w')
   \<and> (disk w \<in> {NoFile, Unreadable, NotText, Malformed, NonObject} \<longrightarrow>
        load_data w = Inr (w\<lparr>data := empty_store\<rparr>))"
proof
  show "\<exists>w'. load_data w = Inr w'" by (rule load_data_total)
  show "disk w \<in> {NoFile, Unreadable, NotText, Malformed, NonObject} \<longrightarrow>
        load_data w = Inr (w\<lparr>data := empty_store\<rparr>)"
    by (auto simp: load_data_def open_and_parse_def set_defaults_def)
qed

theorem load_data_defaults_to_empty_witness:
  "disk (fresh_world\<lparr>disk := Malformed, data := \<lparr>chats = Map.empty, users = {3}, groups = {}\<rparr>\<rparr>)
     \<in> {NoFile, Unreadable, NotText, Malformed, NonObject}
   \<and> load_data (fresh_world\<lparr>disk := Malformed, data := \<lparr>chats = Map.empty, users = {3}, groups = {}\<rparr>\<rparr>)
       = Inr (fresh_world\<lparr>disk := Malformed, data := empty_store\<rparr>)"
  using load_data_defaults_to_empty
    [of "fresh_world\<lparr>disk := Malformed, data := \<lparr>chats = Map.empty, users = {3}, groups = {}\<rparr>\<rparr>"]
  by simp

lemma set_defaults_dump: "set_defaults (PObject (dump s)) = Inr s"
  by (simp add: set_defaults_def dump_def)

text \<open>
  C7. When the file can be written, \<open>save_data\<close> leaves in it the document holding the
  store's three top-level fields \<open>chats\<close>, \<open>users\<close> and \<open>groups\<close> as they are, and
  \<open>load_data\<close> on that file gives back the same store: in the same process the store is
  unchanged, and a process starting from the empty store gets exactly the saved one, every
  chat's configuration included.
\<close>

theorem save_then_load_identity:
  "writable w \<longrightarrow>
     disk (save_data w) = Document (dump (data w))
     \<and> d_chats (dump (data w)) = Some (chats (data w))
     \<and> d_users (dump (data w)) = Some (users (data w))
     \<and> d_groups (dump (data w)) = Some (groups (data w))
     \<and> load_data (save_data w) = Inr (save_data w)
     \<and> data (save_data w) = data w
     \<and> (\<forall>w1. data w1 = empty_store \<and> disk w1 = disk (save_data w) \<longrightarrow>
           (\<exists>w2. load_data w1 = Inr w2 \<and> data w2 = data w))"
  by (auto simp: save_data_def load_data_def open_and_parse_def set_defaults_dump)
     (simp_all add: dump_def)

theorem save_then_load_identity_witness:
  "writable saved_world
   \<and> data (fresh_world\<lparr>disk := disk (save_data saved_world)\<rparr>) = empty_store
   \<and> disk (fresh_world\<lparr>disk := disk (save_data saved_world)\<rparr>) = disk (save_data saved_world)
   \<and> (\<exists>w2. load_data (fresh_world\<lparr>disk := disk (save_data saved_world)\<rparr>) = Inr w2
          \<and> data w2 = data saved_world
          \<and> map_option filters (chats (data w2) 1) = Some []
          \<and> map_option (\<lambda>c. warns c 7) (chats (data w2) 1) = Some None)"
proof -
  have w: "writable saved_world"
    by (simp add: saved_world_def save_data_def fresh_world_def)
  have e: "data (fresh_world\<lparr>disk := disk (save_data saved_world)\<rparr>) = empty_store
     \<and> disk (fresh_world\<lparr>disk := disk (save_data saved_world)\<rparr>) = disk (save_data saved_world)"
    by (simp add: fresh_world_def)
  have d: "map_option filters (chats (data saved_world) 1) = Some []
     \<and> map_option (\<lambda>c. warns c 7) (chats (data saved_world) 1) = Some None"
    by (simp add: saved_world_def save_data_def fresh_world_def default_conf_def)
  from save_then_load_identity [of saved_world] w e
  obtain w2 where "load_data (fresh_world\<lparr>disk := disk (save_data saved_world)\<rparr>) = Inr w2"
    and "data w2 = data saved_world"
    by blast
  with w e d show ?thesis by simp
qed

section \<open>Escalation\<close>

lemma data_save_data [simp]: "data (save_data w) = data w"
  by (simp add: save_data_def)

lemma chats_touch [simp]: "chats (touch_user_and_chat_for_stats us c ty s) = chats s"
  by (simp add: touch_user_and_chat_for_stats_def Let_def split: option.split)

lemma ensure_chat_touch:
  "fst (ensure_chat cid (touch_user_and_chat_for_stats us c ty s)) = fst (ensure_chat cid s)"
  by (simp add: ensure_chat_def split: option.split)

lemma chats_store_conf [simp]: "chats (store_conf cid conf s) cid = Some conf"
  by (simp add: store_conf_def)

lemma warn_count_update [simp]:
  "warn_count (conf\<lparr>warns := (warns conf)(uid \<mapsto> n)\<rparr>) uid = n"
  by (simp add: warn_count_def)

lemma warn_outcome:
  assumes "u_user u = Some admin" and "u_is_admin u" and "u_reply_to u = Some target"
    and "conf = fst (ensure_chat (u_chat u) (data w))"
  shows "\<exists>w' conf'. warn w u =
           (w', if warn_count conf target + 1 \<ge> max_warns conf
                then Done [BanMember target None, Reply (MaxWarnsBanned target)]
                else Done [Reply (WarnedReply target (warn_count conf target + 1) (max_warns conf)
                                   (join_space (u_args u)))])
         \<and> chats (data w') (u_chat u) = Some conf'
         \<and> warn_count conf' target = warn_count conf target + 1
         \<and> max_warns conf' = max_warns conf"
proof -
  obtain c s where e: "ensure_chat (u_chat u) (data w) = (c, s)"
    by (cases "ensure_chat (u_chat u) (data w)")
  with assms have c: "c = conf" by simp
  show ?thesis
    using assms(1-3) e c
    by (simp add: warn_def require_admin_def Let_def)
qed

lemma filter_warn_outcome:
  assumes "u_user u = Some uid"
    and "conf = fst (ensure_chat (u_chat u) (data w))"
    and "first_match (filters conf) (lower (text_or_caption u)) = Some (word, True)"
  shows "\<exists>w' conf'. apply_filters_and_antispam w u =
           (w', if warn_count conf uid + 1 \<ge> max_warns conf
                then Done [DeleteMessage, BanMember uid None]
                else Done [DeleteMessage,
                           SendMessage (WarnedNotice uid (warn_count conf uid + 1) (max_warns conf))])
         \<and> chats (data w') (u_chat u) = Some conf'
         \<and> warn_count conf' uid = warn_count conf uid + 1
         \<and> max_warns conf' = max_warns conf"
proof -
  let ?s0 = "touch_user_and_chat_for_stats (u_user u) (u_chat u) (u_chat_type u) (data w)"
  obtain c s where e: "ensure_chat (u_chat u) ?s0 = (c, s)"
    by (cases "ensure_chat (u_chat u) ?s0")
  have "fst (ensure_chat (u_chat u) ?s0) = conf"
    using assms(2) by (simp add: ensure_chat_touch)
  with e have c: "c = conf" by simp
  show ?thesis
    using assms(1,3) e c
    by (simp add: apply_filters_and_antispam_def Let_def)
qed

text \<open>
  C2. Escalation, on both paths: \<^verbatim>\<open>/warn\<close> by an administrator replying to a user, and
  a message that matches a filter with the warn flag. With \<open>conf\<close> the chat's
  configuration before (the default one for a chat not seen yet), the user's warn count
  after is the count before plus one and the threshold is unchanged; when the new count is
  at or above \<^verbatim>\<open>max_warns\<close> the user is banned, otherwise the user is warned and told the
  new count and the threshold. The count stays at its new value after a ban.
\<close>

theorem escalation_warn_or_ban:
  "(u_user u = Some admin \<and> u_is_admin u \<and> u_reply_to u = Some target
      \<and> conf = fst (ensure_chat (u_chat u) (data w)) \<longrightarrow>
      (\<exists>w' conf'. warn w u =
           (w', if warn_count conf target + 1 \<ge> max_warns conf
                then Done [BanMember target None, Reply (MaxWarnsBanned target)]
                else Done [Reply (WarnedReply target (warn_count conf target + 1) (max_warns conf)
                                   (join_space (u_args u)))])
         \<and> chats (data w') (u_chat u) = Some conf'
         \<and> warn_count conf' target = warn_count conf target + 1
         \<and> max_warns conf' = max_warns conf))
   \<and> (u_user u = Some uid \<and> conf = fst (ensure_chat (u_chat u) (data w))
      \<and> first_match (filters conf) (lower (text_or_caption u)) = Some (word, True) \<longrightarrow>
      (\<exists>w' conf'. apply_filters_and_antispam w u =
           (w', if warn_count conf uid + 1 \<ge> max_warns conf
                then Done [DeleteMessage, BanMember uid None]
                else Done [DeleteMessage,
                           SendMessage (WarnedNotice uid (warn_count conf uid + 1) (max_warns conf))])
         \<and> chats (data w') (u_chat u) = Some conf'
         \<and> warn_count conf' uid = warn_count conf uid + 1
         \<and> max_warns conf' = max_warns conf))"
  using warn_outcome [of u admin target conf w] filter_warn_outcome [of u uid conf w word]
  by blast

theorem escalation_warn_or_ban_witness:
  "snd (warn fresh_world (admin_cmd [] (Some 7))) = Done [Reply (WarnedReply 7 1 3 [])]
   \<and> map_option (\<lambda>c. warn_count c 7)
        (chats (data (fst (warn fresh_world (admin_cmd [] (Some 7))))) 1) = Some 1
   \<and> snd (apply_filters_and_antispam two_warns_world (group_msg 7 ''buy SPAM now'' 100))
       = Done [DeleteMessage, BanMember 7 None]
   \<and> map_option (\<lambda>c. warn_count c 7)
        (chats (data (fst (apply_filters_and_antispam two_warns_world
                            (group_msg 7 ''buy SPAM now'' 100)))) 1) = Some 3"
proof -
  let ?u = "admin_cmd [] (Some 7)" and ?m = "group_msg 7 ''buy SPAM now'' 100"
  let ?c = "default_conf\<lparr>filters := [(''spam'', True)], warns := [7 \<mapsto> 2]\<rparr>"
  have hu: "u_user ?u = Some 5 \<and> u_is_admin ?u \<and> u_reply_to ?u = Some 7 \<and> u_chat ?u = 1
      \<and> join_space (u_args ?u) = []"
    by (simp add: admin_cmd_def)
  have cu: "default_conf = fst (ensure_chat (u_chat ?u) (data fresh_world))"
    by (simp add: admin_cmd_def fresh_world_def empty_store_def ensure_chat_def)
  have vu: "warn_count default_conf 7 = 0 \<and> max_warns default_conf = 3"
    by (simp add: warn_count_def default_conf_def DEFAULT_MAX_WARNS_def)
  have hm: "u_user ?m = Some 7 \<and> u_chat ?m = 1"
    by (simp add: group_msg_def)
  have cm: "?c = fst (ensure_chat (u_chat ?m) (data two_warns_world))"
    by (simp add: group_msg_def two_warns_world_def fresh_world_def ensure_chat_def)
  have fm: "first_match (filters ?c) (lower (text_or_caption ?m)) = Some (''spam'', True)"
    by (simp add: group_msg_def text_or_caption_def lower_def lower_char_def)
  have vm: "warn_count ?c 7 = 2 \<and> max_warns ?c = 3"
    by (simp add: warn_count_def default_conf_def DEFAULT_MAX_WARNS_def)
  have A: "\<exists>w1 c1. warn fresh_world ?u = (w1, Done [Reply (WarnedReply 7 1 3 [])])
      \<and> chats (data w1) 1 = Some c1 \<and> warn_count c1 7 = 1"
    using escalation_warn_or_ban [where u = ?u and admin = 5 and target = 7
        and conf = default_conf and w = fresh_world and uid = 0 and word = "[]"] hu cu vu
    by auto
  have B: "\<exists>w2 c2. apply_filters_and_antispam two_warns_world ?m
        = (w2, Done [DeleteMessage, BanMember 7 None])
      \<and> chats (data w2) 1 = Some c2 \<and> warn_count c2 7 = 3"
    using escalation_warn_or_ban [where u = ?m and admin = 0 and target = 0
        and conf = ?c and w = two_warns_world and uid = 7 and word = "''spam''"] hm cm fm vm
    by auto
  from A B show ?thesis by auto
qed

text \<open>
  Both message handlers act on the first match: when its warn flag is off the message is
  deleted and nothing else is done.
\<close>

lemma filter_match_deletes:
  assumes "u_user u = Some uid"
    and "conf = fst (ensure_chat (u_chat u) (data w))"
    and "first_match (filters conf) (lower (text_or_caption u)) = Some (word, False)"
  shows "snd (apply_filters_and_antispam w u) = Done [DeleteMessage]"
proof -
  let ?s0 = "touch_user_and_chat_for_stats (u_user u) (u_chat u) (u_chat_type u) (data w)"
  obtain c s where e: "ensure_chat (u_chat u) ?s0 = (c, s)"
    by (cases "ensure_chat (u_chat u) ?s0")
  have "fst (ensure_chat (u_chat u) ?s0) = conf"
    using assms(2) by (simp add: ensure_chat_touch)
  with e have c: "c = conf" by simp
  show ?thesis
    using assms(1,3) e c by (simp add: apply_filters_and_antispam_def Let_def)
qed

lemma enforcer_match_deletes:
  assumes "u_chat_type u \<noteq> Private" and "u_text u = Some t" and "t \<noteq> []"
    and "conf = fst (ensure_chat (u_chat u) (data w))"
    and "first_match (filters conf) (lower t) = Some (word, False)"
  shows "snd (filters_and_antispam_enforcer w u) = Done [DeleteMessage]"
proof -
  obtain c s where e: "ensure_chat (u_chat u) (data w) = (c, s)"
    by (cases "ensure_chat (u_chat u) (data w)")
  with assms(4) have c: "c = conf" by simp
  show ?thesis
    using assms(1,2,3,5) e c by (simp add: filters_and_antispam_enforcer_def Let_def)
qed

text \<open>
  Handled one after the other, \<open>n\<close> \<^verbatim>\<open>/warn\<close> commands against the same user add
  exactly \<open>n\<close> to the user's warn count.
\<close>

lemma warn_adds_one:
  assumes "u_user u = Some admin" and "u_is_admin u" and "u_reply_to u = Some target"
  shows "warn_count (fst (ensure_chat (u_chat u) (data (fst (warn w u))))) target
           = warn_count (fst (ensure_chat (u_chat u) (data w))) target + 1"
proof -
  obtain w' conf' where "fst (warn w u) = w'"
    and c: "chats (data w') (u_chat u) = Some conf'"
    and n: "warn_count conf' target
              = warn_count (fst (ensure_chat (u_chat u) (data w))) target + 1"
    using warn_outcome [OF assms refl, of w] by force
  then show ?thesis by (simp add: ensure_chat_def)
qed

lemma sequential_warns_count:
  assumes "u_user u = Some admin" and "u_is_admin u" and "u_reply_to u = Some target"
  shows "warn_count (fst (ensure_chat (u_chat u) (data (run w (replicate n (Warn, u)))))) target
           = warn_count (fst (ensure_chat (u_chat u) (data w))) target + int n"
proof (induction n arbitrary: w)
  case 0
  then show ?case by simp
next
  case (Suc n)
  have "warn_count (fst (ensure_chat (u_chat u) (data (run (fst (warn w u)) (replicate n (Warn, u)))))) target
      = warn_count (fst (ensure_chat (u_chat u) (data (fst (warn w u))))) target + int n"
    by (rule Suc.IH)
  also have "\<dots> = warn_count (fst (ensure_chat (u_chat u) (data w))) target + 1 + int n"
    using warn_adds_one [OF assms, of w] by simp
  finally show ?case by simp
qed

section \<open>The warning threshold\<close>

lemma digit_val_nonneg: "0 \<le> digit_val c"
proof (cases "map_of (zip ''0123456789'' [0, 1, 2, 3, 4, 5, 6, 7, 8, 9 :: int]) c")
  case None
  then show ?thesis by (simp only: digit_val_def option.case)
next
  case (Some d)
  then have "(c, d) \<in> set (zip ''0123456789'' [0, 1, 2, 3, 4, 5, 6, 7, 8, 9 :: int])"
    by (rule map_of_SomeD)
  then have "d \<in> set [0, 1, 2, 3, 4, 5, 6, 7, 8, 9 :: int]"
    by (rule set_zip_rightD)
  then have "0 \<le> d" by auto
  with Some show ?thesis by (simp only: digit_val_def option.case)
qed

lemma foldl_digits_nonneg:
  "0 \<le> a \<Longrightarrow> 0 \<le> foldl (\<lambda>a c. 10 * a + digit_val c) a ds"
proof (induction ds arbitrary: a)
  case Nil
  then show ?case by simp
next
  case (Cons d ds)
  have "0 \<le> 10 * a + digit_val d"
    using Cons.prems digit_val_nonneg [of d] by simp
  then show ?case using Cons.IH by simp
qed

lemma int_of_digits_nonneg: "0 \<le> int_of_digits ds"
  by (simp add: int_of_digits_def foldl_digits_nonneg)

lemma isdigit_char_plain:
  assumes "is_digit c \<or> is_superscript c"
  shows "\<not> is_int_space c \<and> c \<noteq> CHR ''-'' \<and> c \<noteq> CHR ''+'' \<and> c \<noteq> CHR ''_''"
  using assms by (auto simp: is_digit_def is_superscript_def is_int_space_def)

lemma dropWhile_keeps: "xs \<noteq> [] \<Longrightarrow> \<not> P (hd xs) \<Longrightarrow> dropWhile P xs = xs"
  by (cases xs) simp_all

lemma split_on_no_sep: "sep \<notin> set s \<Longrightarrow> split_on sep s = [s]"
  by (induction s) auto

lemma int_strip_isdigit:
  assumes "isdigit a"
  shows "int_strip a = a"
proof -
  from assms have ne: "a \<noteq> []" and all: "\<forall>c \<in> set a. is_digit c \<or> is_superscript c"
    by (simp_all add: isdigit_def list_all_iff)
  from ne all have "\<not> is_int_space (hd a)" using isdigit_char_plain by simp
  with ne have d1: "dropWhile is_int_space a = a" by (rule dropWhile_keeps)
  from ne all have "\<not> is_int_space (hd (rev a))"
    using isdigit_char_plain by (simp add: hd_rev)
  with ne have d2: "dropWhile is_int_space (rev a) = rev a" by (simp add: dropWhile_keeps)
  show ?thesis by (simp add: int_strip_def d1 d2)
qed

text \<open>
  On a string that \<^verbatim>\<open>isdigit\<close> accepts, \<^verbatim>\<open>int\<close> gives the value of the digits when
  all of them are decimal, and raises \<^verbatim>\<open>ValueError\<close> when one is a superscript.
\<close>

lemma py_int_isdigit:
  assumes "isdigit a"
  shows "py_int a = (if list_all is_digit a then Inr (int_of_digits a) else Inl ValueError)"
proof -
  from assms have ne: "a \<noteq> []" and all: "\<forall>c \<in> set a. is_digit c \<or> is_superscript c"
    by (simp_all add: isdigit_def list_all_iff)
  from ne all have h: "hd a \<noteq> CHR ''-'' \<and> hd a \<noteq> CHR ''+''"
    using isdigit_char_plain by simp
  from all have "CHR ''_'' \<notin> set a" using isdigit_char_plain by blast
  then have sp: "split_on CHR ''_'' a = [a]" by (rule split_on_no_sep)
  show ?thesis
    using ne h sp by (simp add: py_int_def int_strip_isdigit [OF assms] isdecimal_def Let_def)
qed

lemma py_int_isdigit_nonneg:
  assumes "isdigit a" and "py_int a = Inr n"
  shows "0 \<le> n"
  using assms int_of_digits_nonneg [of a] by (simp add: py_int_isdigit split: if_splits)

lemma ensure_chat_inv:
  assumes "all_max_warns_ge k s0" and "k \<le> 3" and "ensure_chat cid s0 = (conf, s)"
  shows "all_max_warns_ge k s \<and> k \<le> max_warns conf"
  using assms
  by (auto simp: ensure_chat_def all_max_warns_ge_def default_conf_def DEFAULT_MAX_WARNS_def
      split: option.splits if_splits)

lemma store_conf_inv:
  "all_max_warns_ge k s \<Longrightarrow> k \<le> max_warns conf \<Longrightarrow> all_max_warns_ge k (store_conf cid conf s)"
  by (simp add: store_conf_def all_max_warns_ge_def)

lemma touch_inv:
  "all_max_warns_ge k (touch_user_and_chat_for_stats us c ty s) = all_max_warns_ge k s"
  by (simp add: all_max_warns_ge_def touch_user_and_chat_for_stats_def Let_def split: option.split)

lemma max_warns_flood_control:
  "max_warns (fst (flood_control conf uid a b)) = max_warns conf"
  by (simp add: flood_control_def Let_def)

lemma admin_cases:
  "require_admin u = (True, []) \<or> (\<exists>es. require_admin u = (False, es))"
  by (simp add: require_admin_def split: option.split)

lemma start_inv:
  "all_max_warns_ge k (data w) \<Longrightarrow> all_max_warns_ge k (data (fst (start w u)))"
  by (simp add: start_def touch_inv)

lemma help_cmd_inv:
  "all_max_warns_ge k (data w) \<Longrightarrow> all_max_warns_ge k (data (fst (help_cmd w u)))"
  by (simp add: help_cmd_def touch_inv)

lemma mute_unchanged: "fst (mute w u) = w"
  using admin_cases [of u]
  by (auto simp: mute_def split: option.split sum.split)

lemma ban_unchanged: "fst (ban w u) = w"
  using admin_cases [of u]
  by (auto simp: ban_def split: option.split sum.split)

lemma warn_inv:
  assumes "all_max_warns_ge k (data w)" and "k \<le> 3"
  shows "all_max_warns_ge k (data (fst (warn w u)))"
proof -
  obtain conf s where e: "ensure_chat (u_chat u) (data w) = (conf, s)"
    by (cases "ensure_chat (u_chat u) (data w)")
  from ensure_chat_inv [OF assms e] have i: "all_max_warns_ge k s" "k \<le> max_warns conf"
    by simp_all
  show ?thesis
    using admin_cases [of u] assms(1) i e
    by (auto simp: warn_def Let_def store_conf_inv split: option.split)
qed

lemma warnings_cmd_inv:
  assumes "all_max_warns_ge k (data w)" and "k \<le> 3"
  shows "all_max_warns_ge k (data (fst (warnings_cmd w u)))"
proof -
  obtain conf s where e: "ensure_chat (u_chat u) (data w) = (conf, s)"
    by (cases "ensure_chat (u_chat u) (data w)")
  from ensure_chat_inv [OF assms e] have i: "all_max_warns_ge k s" "k \<le> max_warns conf"
    by simp_all
  show ?thesis
    using admin_cases [of u] assms(1) i e
    by (auto simp: warnings_cmd_def Let_def store_conf_inv  split: option.split list.split sum.split)
qed

lemma resetwarns_inv:
  assumes "all_max_warns_ge k (data w)" and "k \<le> 3"
  shows "all_max_warns_ge k (data (fst (resetwarns w u)))"
proof -
  obtain conf s where e: "ensure_chat (u_chat u) (data w) = (conf, s)"
    by (cases "ensure_chat (u_chat u) (data w)")
  from ensure_chat_inv [OF assms e] have i: "all_max_warns_ge k s" "k \<le> max_warns conf"
    by simp_all
  show ?thesis
    using admin_cases [of u] assms(1) i e
    by (auto simp: resetwarns_def Let_def store_conf_inv  split: option.split list.split sum.split)
qed

lemma addfilter_inv:
  assumes "all_max_warns_ge k (data w)" and "k \<le> 3"
  shows "all_max_warns_ge k (data (fst (addfilter w u)))"
proof -
  obtain conf s where e: "ensure_chat (u_chat u) (data w) = (conf, s)"
    by (cases "ensure_chat (u_chat u) (data w)")
  from ensure_chat_inv [OF assms e] have i: "all_max_warns_ge k s" "k \<le> max_warns conf"
    by simp_all
  show ?thesis
    using admin_cases [of u] assms(1) i e
    by (auto simp: addfilter_def Let_def store_conf_inv  split: option.split list.split sum.split)
qed

lemma rmfilter_inv:
  assumes "all_max_warns_ge k (data w)" and "k \<le> 3"
  shows "all_max_warns_ge k (data (fst (rmfilter w u)))"
proof -
  obtain conf s where e: "ensure_chat (u_chat u) (data w) = (conf, s)"
    by (cases "ensure_chat (u_chat u) (data w)")
  from ensure_chat_inv [OF assms e] have i: "all_max_warns_ge k s" "k \<le> max_warns conf"
    by simp_all
  show ?thesis
    using admin_cases [of u] assms(1) i e
    by (auto simp: rmfilter_def Let_def store_conf_inv  split: option.split list.split sum.split)
qed

lemma listfilters_inv:
  assumes "all_max_warns_ge k (data w)" and "k \<le> 3"
  shows "all_max_warns_ge k (data (fst (listfilters w u)))"
proof -
  obtain conf s where e: "ensure_chat (u_chat u) (data w) = (conf, s)"
    by (cases "ensure_chat (u_chat u) (data w)")
  from ensure_chat_inv [OF assms e] have i: "all_max_warns_ge k s" "k \<le> max_warns conf"
    by simp_all
  show ?thesis
    using admin_cases [of u] assms(1) i e
    by (auto simp: listfilters_def Let_def store_conf_inv  split: option.split list.split sum.split)
qed

lemma antispam_inv:
  assumes "all_max_warns_ge k (data w)" and "k \<le> 3"
  shows "all_max_warns_ge k (data (fst (antispam w u)))"
proof -
  obtain conf s where e: "ensure_chat (u_chat u) (data w) = (conf, s)"
    by (cases "ensure_chat (u_chat u) (data w)")
  from ensure_chat_inv [OF assms e] have i: "all_max_warns_ge k s" "k \<le> max_warns conf"
    by simp_all
  show ?thesis
    using admin_cases [of u] assms(1) i e
    by (auto simp: antispam_def Let_def store_conf_inv  split: option.split list.split sum.split)
qed

lemma slowmode_inv:
  assumes "all_max_warns_ge k (data w)" and "k \<le> 3"
  shows "all_max_warns_ge k (data (fst (slowmode w u)))"
proof -
  obtain conf s where e: "ensure_chat (u_chat u) (data w) = (conf, s)"
    by (cases "ensure_chat (u_chat u) (data w)")
  from ensure_chat_inv [OF assms e] have i: "all_max_warns_ge k s" "k \<le> max_warns conf"
    by simp_all
  show ?thesis
    using admin_cases [of u] assms(1) i e
    by (auto simp: slowmode_def Let_def store_conf_inv  split: option.split list.split sum.split)
qed

lemma setwelcome_inv:
  assumes "all_max_warns_ge k (data w)" and "k \<le> 3"
  shows "all_max_warns_ge k (data (fst (setwelcome w u)))"
proof -
  obtain conf s where e: "ensure_chat (u_chat u) (data w) = (conf, s)"
    by (cases "ensure_chat (u_chat u) (data w)")
  from ensure_chat_inv [OF assms e] have i: "all_max_warns_ge k s" "k \<le> max_warns conf"
    by simp_all
  show ?thesis
    using admin_cases [of u] assms(1) i e
    by (auto simp: setwelcome_def Let_def store_conf_inv  split: option.split list.split sum.split)
qed

lemma togglewelcome_inv:
  assumes "all_max_warns_ge k (data w)" and "k \<le> 3"
  shows "all_max_warns_ge k (data (fst (togglewelcome w u)))"
proof -
  obtain conf s where e: "ensure_chat (u_chat u) (data w) = (conf, s)"
    by (cases "ensure_chat (u_chat u) (data w)")
  from ensure_chat_inv [OF assms e] have i: "all_max_warns_ge k s" "k \<le> max_warns conf"
    by simp_all
  show ?thesis
    using admin_cases [of u] assms(1) i e
    by (auto simp: togglewelcome_def Let_def store_conf_inv  split: option.split list.split sum.split)
qed

lemma setmaxwarns_inv:
  assumes "all_max_warns_ge k (data w)" and "k \<le> 3"
    and "\<forall>a rest n. u_args u = a # rest \<and> isdigit a \<and> py_int a = Inr n \<longrightarrow> k \<le> n"
  shows "all_max_warns_ge k (data (fst (setmaxwarns w u)))"
proof -
  obtain conf s where e: "ensure_chat (u_chat u) (data w) = (conf, s)"
    by (cases "ensure_chat (u_chat u) (data w)")
  from ensure_chat_inv [OF assms(1,2) e] have i: "all_max_warns_ge k s" "k \<le> max_warns conf"
    by simp_all
  show ?thesis
    using admin_cases [of u] assms(1,3) i e
    by (auto simp: setmaxwarns_def Let_def store_conf_inv split: list.split sum.split)
qed

lemma apply_filters_and_antispam_inv:
  assumes "all_max_warns_ge k (data w)" and "k \<le> 3"
  shows "all_max_warns_ge k (data (fst (apply_filters_and_antispam w u)))"
proof -
  let ?s0 = "touch_user_and_chat_for_stats (u_user u) (u_chat u) (u_chat_type u) (data w)"
  have t: "all_max_warns_ge k ?s0" using assms(1) by (simp add: touch_inv)
  obtain conf s where e: "ensure_chat (u_chat u) ?s0 = (conf, s)"
    by (cases "ensure_chat (u_chat u) ?s0")
  from ensure_chat_inv [OF t assms(2) e] have i: "all_max_warns_ge k s" "k \<le> max_warns conf"
    by simp_all
  have f: "k \<le> max_warns (fst (flood_control conf uid a b))" for uid a b
    using i(2) by (simp add: max_warns_flood_control)
  have fc: "flood_control conf uid a b = (c', fl) \<Longrightarrow> k \<le> max_warns c'" for uid a b c' fl
    using f [of uid a b] by simp
  show ?thesis
    using assms(1) i e
    by (auto simp: apply_filters_and_antispam_def Let_def
        split: option.split prod.split intro!: store_conf_inv dest: fc)
qed

lemma handle_inv:
  assumes "all_max_warns_ge k (data w)" and "k \<le> 3"
    and "h = SetMaxWarns \<longrightarrow> (\<forall>a rest n. u_args u = a # rest \<and> isdigit a \<and> py_int a = Inr n \<longrightarrow> k \<le> n)"
  shows "all_max_warns_ge k (data (fst (handle h w u)))"
proof (cases h)
  case SetMaxWarns
  with assms show ?thesis by (simp add: setmaxwarns_inv)
qed (use assms in \<open>simp_all add: start_inv help_cmd_inv mute_unchanged ban_unchanged warn_inv
      warnings_cmd_inv resetwarns_inv addfilter_inv rmfilter_inv listfilters_inv antispam_inv
      slowmode_inv setwelcome_inv togglewelcome_inv apply_filters_and_antispam_inv\<close>)

lemma run_inv:
  assumes "all_max_warns_ge k (data w)" and "k \<le> 3"
    and "\<forall>(h, u) \<in> set evs. h = SetMaxWarns \<longrightarrow>
           (\<forall>a rest n. u_args u = a # rest \<and> isdigit a \<and> py_int a = Inr n \<longrightarrow> k \<le> n)"
  shows "all_max_warns_ge k (data (run w evs))"
  using assms
proof (induction evs arbitrary: w)
  case Nil
  then show ?case by simp
next
  case (Cons ev evs)
  obtain h u where ev: "ev = (h, u)" by (cases ev)
  from Cons.prems(3) ev
  have here: "h = SetMaxWarns \<longrightarrow>
      (\<forall>a rest n. u_args u = a # rest \<and> isdigit a \<and> py_int a = Inr n \<longrightarrow> k \<le> n)"
    by auto
  from Cons.prems(3)
  have later: "\<forall>(h, u) \<in> set evs. h = SetMaxWarns \<longrightarrow>
           (\<forall>a rest n. u_args u = a # rest \<and> isdigit a \<and> py_int a = Inr n \<longrightarrow> k \<le> n)"
    by simp
  have "all_max_warns_ge k (data (fst (handle h w u)))"
    using Cons.prems(1,2) here by (rule handle_inv)
  then have "all_max_warns_ge k (data (run (fst (handle h w u)) evs))"
    using Cons.prems(2) later by (rule Cons.IH)
  with ev show ?case by simp
qed

lemma empty_store_inv: "all_max_warns_ge k empty_store"
  by (simp add: all_max_warns_ge_def empty_store_def)

text \<open>
  C3 as stated fails: \<^verbatim>\<open>/setmaxwarns 0\<close> passes the \<^verbatim>\<open>isdigit\<close> check and sets the
  threshold of the chat to 0.
\<close>

theorem max_warns_reachable_counterexample:
  "snd (setmaxwarns fresh_world (admin_cmd [''0''] None)) = Done [Reply (MaxWarnsSet 0)]
   \<and> map_option max_warns
        (chats (data (run fresh_world [(SetMaxWarns, admin_cmd [''0''] None)])) 1) = Some 0"
  by (simp add: setmaxwarns_def require_admin_def admin_cmd_def fresh_world_def empty_store_def
        ensure_chat_def store_conf_def isdigit_def isdecimal_def is_digit_def py_int_def
        int_strip_def is_int_space_def int_of_digits_def digit_val_def Let_def)

text \<open>
  C3, amended. Starting from the empty store, after any sequence of handled updates every
  chat's \<^verbatim>\<open>max_warns\<close> is at least 0; and it is at least 1 when every argument that
  \<^verbatim>\<open>/setmaxwarns\<close> accepted (\<^verbatim>\<open>str.isdigit\<close>) and \<^verbatim>\<open>int\<close> read in the sequence
  is a number of at least 1.
\<close>

theorem max_warns_reachable:
  "data w = empty_store \<longrightarrow>
     all_max_warns_ge 0 (data (run w evs))
     \<and> ((\<forall>(h, u) \<in> set evs. h = SetMaxWarns \<longrightarrow>
            (\<forall>a rest n. u_args u = a # rest \<and> isdigit a \<and> py_int a = Inr n \<longrightarrow> 1 \<le> n)) \<longrightarrow>
         all_max_warns_ge 1 (data (run w evs)))"
proof (intro impI conjI)
  assume e: "data w = empty_store"
  then have i0: "all_max_warns_ge 0 (data w)" and i1: "all_max_warns_ge 1 (data w)"
    by (simp_all add: empty_store_inv)
  have "\<forall>(h, u) \<in> set evs. h = SetMaxWarns \<longrightarrow>
           (\<forall>a rest n. u_args u = a # rest \<and> isdigit a \<and> py_int a = Inr n \<longrightarrow> 0 \<le> n)"
    using py_int_isdigit_nonneg by blast
  with i0 show "all_max_warns_ge 0 (data (run w evs))"
    by (intro run_inv) simp_all
  assume "\<forall>(h, u) \<in> set evs. h = SetMaxWarns \<longrightarrow>
            (\<forall>a rest n. u_args u = a # rest \<and> isdigit a \<and> py_int a = Inr n \<longrightarrow> 1 \<le> n)"
  with i1 show "all_max_warns_ge 1 (data (run w evs))"
    by (intro run_inv) simp_all
qed

theorem max_warns_reachable_witness:
  "data fresh_world = empty_store
   \<and> all_max_warns_ge 0
        (data (run fresh_world [(SetMaxWarns, admin_cmd [''0''] None), (Warn, admin_cmd [] (Some 7))]))
   \<and> map_option max_warns
        (chats (data (run fresh_world
           [(SetMaxWarns, admin_cmd [''0''] None), (Warn, admin_cmd [] (Some 7))])) 1) = Some 0
   \<and> isdigit ''2'' \<and> py_int ''2'' = Inr 2
   \<and> all_max_warns_ge 1 (data (run fresh_world [(SetMaxWarns, admin_cmd [''2''] None)]))
   \<and> map_option max_warns
        (chats (data (run fresh_world [(SetMaxWarns, admin_cmd [''2''] None)])) 1) = Some 2
   \<and> isdigit [CHR 0xB2] \<and> py_int [CHR 0xB2] = Inl ValueError
   \<and> all_max_warns_ge 1 (data (run fresh_world [(SetMaxWarns, admin_cmd [[CHR 0xB2]] None)]))
   \<and> map_option max_warns
        (chats (data (run fresh_world [(SetMaxWarns, admin_cmd [[CHR 0xB2]] None)])) 1) = Some 3"
proof -
  have e: "data fresh_world = empty_store"
    by (simp add: fresh_world_def)
  have d: "isdigit ''2'' \<and> py_int ''2'' = Inr 2"
    by (simp add: isdigit_def isdecimal_def is_digit_def py_int_def int_strip_def
        is_int_space_def int_of_digits_def digit_val_def Let_def)
  have d2: "isdigit [CHR 0xB2] \<and> py_int [CHR 0xB2] = Inl ValueError"
    by (simp add: isdigit_def isdecimal_def is_digit_def is_superscript_def py_int_def
        int_strip_def is_int_space_def Let_def)
  have h: "\<forall>(h, u) \<in> set [(SetMaxWarns, admin_cmd [''2''] None)]. h = SetMaxWarns \<longrightarrow>
            (\<forall>a rest n. u_args u = a # rest \<and> isdigit a \<and> py_int a = Inr n \<longrightarrow> 1 \<le> n)"
    using d by (simp add: admin_cmd_def)
  have h2: "\<forall>(h, u) \<in> set [(SetMaxWarns, admin_cmd [[CHR 0xB2]] None)]. h = SetMaxWarns \<longrightarrow>
            (\<forall>a rest n. u_args u = a # rest \<and> isdigit a \<and> py_int a = Inr n \<longrightarrow> 1 \<le> n)"
    using d2 by (simp add: admin_cmd_def)
  have v0: "map_option max_warns
        (chats (data (run fresh_world
           [(SetMaxWarns, admin_cmd [''0''] None), (Warn, admin_cmd [] (Some 7))])) 1) = Some 0"
    by (simp add: setmaxwarns_def warn_def require_admin_def admin_cmd_def fresh_world_def
        empty_store_def ensure_chat_def store_conf_def isdigit_def isdecimal_def is_digit_def
        py_int_def int_strip_def is_int_space_def int_of_digits_def digit_val_def Let_def
        save_data_def)
  have v2: "map_option max_warns
        (chats (data (run fresh_world [(SetMaxWarns, admin_cmd [''2''] None)])) 1) = Some 2"
    by (simp add: setmaxwarns_def require_admin_def admin_cmd_def fresh_world_def
        empty_store_def ensure_chat_def store_conf_def isdigit_def isdecimal_def is_digit_def
        py_int_def int_strip_def is_int_space_def int_of_digits_def digit_val_def Let_def
        save_data_def)
  have v3: "map_option max_warns
        (chats (data (run fresh_world [(SetMaxWarns, admin_cmd [[CHR 0xB2]] None)])) 1) = Some 3"
    using d2
    by (simp add: setmaxwarns_def require_admin_def admin_cmd_def fresh_world_def
        empty_store_def ensure_chat_def default_conf_def DEFAULT_MAX_WARNS_def)
  have a: "all_max_warns_ge 0
        (data (run fresh_world [(SetMaxWarns, admin_cmd [''0''] None), (Warn, admin_cmd [] (Some 7))]))"
    using max_warns_reachable [of fresh_world
        "[(SetMaxWarns, admin_cmd [''0''] None), (Warn, admin_cmd [] (Some 7))]"] e
    by blast
  have b: "all_max_warns_ge 1 (data (run fresh_world [(SetMaxWarns, admin_cmd [''2''] None)]))"
    using max_warns_reachable [of fresh_world "[(SetMaxWarns, admin_cmd [''2''] None)]"] e h
    by blast
  have c: "all_max_warns_ge 1 (data (run fresh_world [(SetMaxWarns, admin_cmd [[CHR 0xB2]] None)]))"
    using max_warns_reachable [of fresh_world "[(SetMaxWarns, admin_cmd [[CHR 0xB2]] None)]"] e h2
    by blast
  from e d d2 v0 v2 v3 a b c show ?thesis by blast
qed

section \<open>Invalid arguments\<close>

lemma mute_no_duration:
  assumes "u_user u = Some admin" and "u_is_admin u" and "u_reply_to u = Some target"
    and "u_args u = a # rest" and "parse_duration (Some a) = Inr None"
  shows "mute w u = (w, Done [RestrictMember target None, Reply (MutedNotice target None)])"
  using assms
  by (simp add: mute_def require_admin_def duration_arg_def until_date_def shown_duration_def)

lemma ban_no_duration:
  assumes "u_user u = Some admin" and "u_is_admin u" and "u_reply_to u = Some target"
    and "u_args u = a # rest" and "parse_duration (Some a) = Inr None"
  shows "ban w u = (w, Done [BanMember target None, Reply (BannedNotice target None)])"
  using assms
  by (simp add: ban_def require_admin_def duration_arg_def until_date_def shown_duration_def)

lemma setmaxwarns_usage:
  assumes "u_user u = Some admin" and "u_is_admin u"
    and "u_args u = [] \<or> (\<exists>a rest. u_args u = a # rest \<and> \<not> isdigit a)"
  shows "setmaxwarns w u = (w, Done [Reply UsageSetMaxWarns])"
  using assms by (auto simp: setmaxwarns_def require_admin_def)

text \<open>
  A string that, stripped, is not one or more decimal digits followed by a unit letter
  is not matched by the regular expression, and \<^verbatim>\<open>parse_duration\<close> returns \<^verbatim>\<open>None\<close>.
\<close>

lemma unmatched_duration_is_None:
  assumes "\<not> (\<exists>ds x. strip a = ds @ [x] \<and> ds \<noteq> [] \<and> list_all is_digit ds
                  \<and> x \<in> set ''smhdSMHD'')"
  shows "parse_duration (Some a) = Inr None"
proof (cases "fullmatch_duration (strip a)")
  case None
  then show ?thesis by (simp add: parse_duration_def)
next
  case (Some p)
  obtain ds x where p: "p = (ds, x)" by (cases p)
  with Some have "strip a = ds @ [x] \<and> ds \<noteq> [] \<and> list_all is_digit ds \<and> x \<in> set ''smhdSMHD''"
    by (simp only: fullmatch_duration_iff [symmetric])
  with assms show ?thesis by blast
qed

text \<open>
  C5 as stated fails: \<^verbatim>\<open>/mute abc\<close>, whose duration string is malformed, is not
  rejected; the user is muted, with no expiry.
\<close>

theorem invalid_argument_rejected_counterexample:
  "parse_duration (Some ''abc'') = Inr None
   \<and> mute fresh_world (admin_cmd [''abc''] (Some 7))
       = (fresh_world, Done [RestrictMember 7 None, Reply (MutedNotice 7 None)])
   \<and> \<not> rejected (snd (mute fresh_world (admin_cmd [''abc''] (Some 7))))"
proof -
  have p: "parse_duration (Some ''abc'') = Inr None"
    by (simp add: parse_duration_def fullmatch_duration_def strip_def is_space_def is_digit_def)
  have m: "mute fresh_world (admin_cmd [''abc''] (Some 7))
       = (fresh_world, Done [RestrictMember 7 None, Reply (MutedNotice 7 None)])"
    using p by (simp add: mute_no_duration [where admin = 5 and a = "''abc''" and rest = "[]"]
          admin_cmd_def)
  show ?thesis using p m by (simp add: rejected_def)
qed

text \<open>
  C5, amended. \<^verbatim>\<open>/setmaxwarns\<close> by an administrator with no argument, or with a first
  argument that \<^verbatim>\<open>str.isdigit\<close> does not accept, is rejected with its usage reply and
  the state is unchanged. \<^verbatim>\<open>/mute\<close> and \<^verbatim>\<open>/ban\<close> never change the state. A duration
  argument that, stripped of surrounding whitespace, is not one or more decimal digits
  followed by one of the letters s, m, h, d in either case does not reject \<^verbatim>\<open>/mute\<close>
  or \<^verbatim>\<open>/ban\<close> by an administrator replying to a user: \<^verbatim>\<open>parse_duration\<close> returns
  no duration for it and the mute or ban is carried out with no expiry. The argument
  ranges over the strings of code points 0 to 255.
\<close>

theorem invalid_argument_handling:
  "(u_user u = Some admin \<and> u_is_admin u
      \<and> (u_args u = [] \<or> (\<exists>a rest. u_args u = a # rest \<and> \<not> isdigit a)) \<longrightarrow>
      setmaxwarns w u = (w, Done [Reply UsageSetMaxWarns]) \<and> rejected (snd (setmaxwarns w u)))
   \<and> fst (mute w u) = w \<and> fst (ban w u) = w
   \<and> (u_user u = Some admin \<and> u_is_admin u \<and> u_reply_to u = Some target
        \<and> u_args u = a # rest
        \<and> \<not> (\<exists>ds x. strip a = ds @ [x] \<and> ds \<noteq> [] \<and> list_all is_digit ds
                    \<and> x \<in> set ''smhdSMHD'') \<longrightarrow>
        parse_duration (Some a) = Inr None
        \<and> snd (mute w u) = Done [RestrictMember target None, Reply (MutedNotice target None)]
        \<and> snd (ban w u) = Done [BanMember target None, Reply (BannedNotice target None)]
        \<and> \<not> rejected (snd (mute w u)) \<and> \<not> rejected (snd (ban w u)))"
proof (intro conjI impI)
  assume a: "u_user u = Some admin \<and> u_is_admin u
      \<and> (u_args u = [] \<or> (\<exists>a rest. u_args u = a # rest \<and> \<not> isdigit a))"
  then show r: "setmaxwarns w u = (w, Done [Reply UsageSetMaxWarns])"
    using setmaxwarns_usage [of u admin w] by blast
  then show "rejected (snd (setmaxwarns w u))"
    by (simp add: rejected_def is_usage_def)
next
  show "fst (mute w u) = w" by (rule mute_unchanged)
  show "fst (ban w u) = w" by (rule ban_unchanged)
next
  assume a: "u_user u = Some admin \<and> u_is_admin u \<and> u_reply_to u = Some target
        \<and> u_args u = a # rest
        \<and> \<not> (\<exists>ds x. strip a = ds @ [x] \<and> ds \<noteq> [] \<and> list_all is_digit ds
                    \<and> x \<in> set ''smhdSMHD'')"
  then show p: "parse_duration (Some a) = Inr None"
    using unmatched_duration_is_None [of a] by blast
  from a p have m: "mute w u = (w, Done [RestrictMember target None, Reply (MutedNotice target None)])"
    using mute_no_duration [of u admin target a rest w] by blast
  from a p have b: "ban w u = (w, Done [BanMember target None, Reply (BannedNotice target None)])"
    using ban_no_duration [of u admin target a rest w] by blast
  from m show "snd (mute w u) = Done [RestrictMember target None, Reply (MutedNotice target None)]"
    by simp
  from b show "snd (ban w u) = Done [BanMember target None, Reply (BannedNotice target None)]"
    by simp
  from m show "\<not> rejected (snd (mute w u))" by (simp add: rejected_def)
  from b show "\<not> rejected (snd (ban w u))" by (simp add: rejected_def)
qed

theorem invalid_argument_handling_witness:
  "\<not> isdigit ''three''
   \<and> setmaxwarns saved_world (admin_cmd [''three''] None) = (saved_world, Done [Reply UsageSetMaxWarns])
   \<and> rejected (snd (setmaxwarns saved_world (admin_cmd [''three''] None)))
   \<and> \<not> (\<exists>ds x. strip ''soon'' = ds @ [x] \<and> ds \<noteq> [] \<and> list_all is_digit ds
               \<and> x \<in> set ''smhdSMHD'')
   \<and> parse_duration (Some ''soon'') = Inr None
   \<and> fst (mute saved_world (admin_cmd [''soon''] (Some 7))) = saved_world
   \<and> snd (ban saved_world (admin_cmd [''soon''] (Some 7)))
       = Done [BanMember 7 None, Reply (BannedNotice 7 None)]
   \<and> \<not> rejected (snd (mute saved_world (admin_cmd [''soon''] (Some 7))))"
proof -
  have d: "\<not> isdigit ''three''"
    by (simp add: isdigit_def is_digit_def is_superscript_def)
  have f: "fullmatch_duration (strip ''soon'') = None"
    by (simp add: fullmatch_duration_def strip_def is_space_def is_digit_def)
  have s: "\<not> (\<exists>ds x. strip ''soon'' = ds @ [x] \<and> ds \<noteq> [] \<and> list_all is_digit ds
               \<and> x \<in> set ''smhdSMHD'')"
  proof
    assume "\<exists>ds x. strip ''soon'' = ds @ [x] \<and> ds \<noteq> [] \<and> list_all is_digit ds
               \<and> x \<in> set ''smhdSMHD''"
    then obtain ds x where "strip ''soon'' = ds @ [x] \<and> ds \<noteq> [] \<and> list_all is_digit ds
               \<and> x \<in> set ''smhdSMHD''"
      by blast
    then have "fullmatch_duration (strip ''soon'') = Some (ds, x)"
      by (rule iffD2 [OF fullmatch_duration_iff])
    with f show False by simp
  qed
  have h1: "u_user (admin_cmd [''three''] None) = Some 5 \<and> u_is_admin (admin_cmd [''three''] None)
      \<and> u_args (admin_cmd [''three''] None) = ''three'' # []"
    by (simp add: admin_cmd_def)
  have h2: "u_user (admin_cmd [''soon''] (Some 7)) = Some 5 \<and> u_is_admin (admin_cmd [''soon''] (Some 7))
      \<and> u_reply_to (admin_cmd [''soon''] (Some 7)) = Some 7
      \<and> u_args (admin_cmd [''soon''] (Some 7)) = ''soon'' # []"
    by (simp add: admin_cmd_def)
  have A: "setmaxwarns saved_world (admin_cmd [''three''] None)
        = (saved_world, Done [Reply UsageSetMaxWarns])
      \<and> rejected (snd (setmaxwarns saved_world (admin_cmd [''three''] None)))"
    using invalid_argument_handling [where u = "admin_cmd [''three''] None" and admin = 5
        and w = saved_world and target = 0 and a = "[]" and rest = "[]"] d h1
    by blast
  have B: "parse_duration (Some ''soon'') = Inr None
      \<and> fst (mute saved_world (admin_cmd [''soon''] (Some 7))) = saved_world
      \<and> snd (ban saved_world (admin_cmd [''soon''] (Some 7)))
          = Done [BanMember 7 None, Reply (BannedNotice 7 None)]
      \<and> \<not> rejected (snd (mute saved_world (admin_cmd [''soon''] (Some 7))))"
    using invalid_argument_handling [where u = "admin_cmd [''soon''] (Some 7)" and admin = 5
        and w = saved_world and target = 7 and a = "''soon''" and rest = "[]"] s h2
    by blast
  from d s A B show ?thesis by blast
qed

text \<open>
  The arguments on which a handler raises are outside C5 as amended. \<^verbatim>\<open>/slowmode\<close>
  passes its argument to \<^verbatim>\<open>int\<close> unchecked, and \<^verbatim>\<open>/setmaxwarns\<close> checks it with
  \<^verbatim>\<open>str.isdigit\<close>, which accepts the superscript digits that \<^verbatim>\<open>int\<close> does not
  read. In both the \<^verbatim>\<open>ValueError\<close> leaves the handler after the chat's configuration
  has been created in memory, and nothing is replied.
\<close>

lemma slowmode_non_numeric_raises:
  "slowmode fresh_world (admin_cmd [''abc''] None)
     = (fresh_world\<lparr>data := \<lparr>chats = [1 \<mapsto> default_conf], users = {}, groups = {}\<rparr>\<rparr>,
        Raised ValueError)"
  by (simp add: slowmode_def require_admin_def admin_cmd_def fresh_world_def empty_store_def
        ensure_chat_def lower_def lower_char_def py_int_def int_strip_def is_int_space_def
        isdecimal_def is_digit_def Let_def)

lemma setmaxwarns_superscript_raises:
  "isdigit [CHR 0xB2]
   \<and> setmaxwarns fresh_world (admin_cmd [[CHR 0xB2]] None)
       = (fresh_world\<lparr>data := \<lparr>chats = [1 \<mapsto> default_conf], users = {}, groups = {}\<rparr>\<rparr>,
          Raised ValueError)"
  by (simp add: setmaxwarns_def require_admin_def admin_cmd_def fresh_world_def empty_store_def
        ensure_chat_def isdigit_def is_digit_def is_superscript_def py_int_def int_strip_def
        is_int_space_def isdecimal_def Let_def)

section \<open>Persistence of mutations\<close>

text \<open>
  The paths that change the store and save it: among them \<^verbatim>\<open>/warn\<close> and, in the message
  handler itself, the message that is flagged for flooding.
\<close>

lemma warn_is_saved:
  assumes "writable w" and "u_user u = Some admin" and "u_is_admin u"
    and "u_reply_to u = Some target"
  shows "disk (fst (warn w u)) = Document (dump (data (fst (warn w u))))"
proof -
  obtain conf s where e: "ensure_chat (u_chat u) (data w) = (conf, s)"
    by (cases "ensure_chat (u_chat u) (data w)")
  show ?thesis
    using assms e by (simp add: warn_def require_admin_def Let_def save_data_def)
qed

lemma flood_mute_is_saved:
  assumes "writable w" and "u_user u = Some uid"
    and "conf = fst (ensure_chat (u_chat u) (data w))"
    and "first_match (filters conf) (lower (text_or_caption u)) = None"
    and "antispam_on conf" and "\<not> has_link (lower (text_or_caption u))"
    and "snd (flood_control conf uid (u_clock0 u) (u_clock1 u))"
  shows "disk (fst (apply_filters_and_antispam w u))
           = Document (dump (data (fst (apply_filters_and_antispam w u))))"
proof -
  let ?s0 = "touch_user_and_chat_for_stats (u_user u) (u_chat u) (u_chat_type u) (data w)"
  obtain c s where e: "ensure_chat (u_chat u) ?s0 = (c, s)"
    by (cases "ensure_chat (u_chat u) ?s0")
  have "fst (ensure_chat (u_chat u) ?s0) = conf"
    using assms(3) by (simp add: ensure_chat_touch)
  with e have c: "c = conf" by simp
  obtain c' where f: "flood_control conf uid (u_clock0 u) (u_clock1 u) = (c', True)"
    using assms(7) by (cases "flood_control conf uid (u_clock0 u) (u_clock1 u)") simp
  show ?thesis
    using assms(1,2,4,5,6) e c f
    by (simp add: apply_filters_and_antispam_def Let_def save_data_def)
qed

text \<open>
  C6. The message handler saves the store inside the branch taken when the flood count
  reaches 5. A message that is not flagged changes the user's flood window in the store
  and returns without saving: with chat 1 saved in its default configuration, after a
  first message of user 7 at time 100 the store holds the window (count 1, start 100),
  and the file holds the store as saved at the top of the handler, without it.
\<close>

theorem flood_update_not_persisted:
  "disk saved_world = Document (dump (data saved_world))
   \<and> snd (apply_filters_and_antispam saved_world (group_msg 7 ''hello'' 100)) = Done []
   \<and> data (fst (apply_filters_and_antispam saved_world (group_msg 7 ''hello'' 100)))
       = \<lparr>chats = [1 \<mapsto> default_conf\<lparr>flood := [7 \<mapsto> \<lparr>count = 1, ts = 100\<rparr>]\<rparr>],
          users = {7}, groups = {1}\<rparr>
   \<and> disk (fst (apply_filters_and_antispam saved_world (group_msg 7 ''hello'' 100)))
       = Document (dump \<lparr>chats = [1 \<mapsto> default_conf], users = {7}, groups = {1}\<rparr>)
   \<and> disk (fst (apply_filters_and_antispam saved_world (group_msg 7 ''hello'' 100)))
       \<noteq> Document (dump (data (fst (apply_filters_and_antispam saved_world
                                      (group_msg 7 ''hello'' 100)))))"
proof -
  let ?w = "apply_filters_and_antispam saved_world (group_msg 7 ''hello'' 100)"
  have s: "disk saved_world = Document (dump (data saved_world))"
    by (simp add: saved_world_def save_data_def fresh_world_def)
  have l: "\<not> has_link (lower ''hello'')"
    by (simp add: has_link_def lower_def lower_char_def)
  have r: "?w = (\<lparr>data = \<lparr>chats = [1 \<mapsto> default_conf\<lparr>flood := [7 \<mapsto> \<lparr>count = 1, ts = 100\<rparr>]\<rparr>],
                          users = {7}, groups = {1}\<rparr>,
                   disk = Document (dump \<lparr>chats = [1 \<mapsto> default_conf], users = {7}, groups = {1}\<rparr>),
                   writable = True\<rparr>, Done [])"
    using l
    by (simp add: apply_filters_and_antispam_def group_msg_def saved_world_def fresh_world_def
          save_data_def touch_user_and_chat_for_stats_def ensure_chat_def store_conf_def
          text_or_caption_def flood_control_def default_conf_def Let_def)
  have ne: "dump \<lparr>chats = [1 \<mapsto> default_conf], users = {7}, groups = {1}\<rparr>
      \<noteq> dump \<lparr>chats = [1 \<mapsto> default_conf\<lparr>flood := [7 \<mapsto> \<lparr>count = 1, ts = 100\<rparr>]\<rparr>],
                users = {7::int}, groups = {1::int}\<rparr>"
  proof
    assume "dump \<lparr>chats = [1 \<mapsto> default_conf], users = {7}, groups = {1}\<rparr>
      = dump \<lparr>chats = [1 \<mapsto> default_conf\<lparr>flood := [7 \<mapsto> \<lparr>count = 1, ts = 100\<rparr>]\<rparr>],
                users = {7::int}, groups = {1::int}\<rparr>"
    then have "[1 \<mapsto> default_conf]
        = [(1::int) \<mapsto> default_conf\<lparr>flood := [7 \<mapsto> \<lparr>count = 1, ts = 100\<rparr>]\<rparr>]"
      by (simp add: dump_def)
    then have "default_conf = default_conf\<lparr>flood := [7 \<mapsto> \<lparr>count = 1, ts = 100\<rparr>]\<rparr>"
      by (rule map_upd_eqD1)
    then have "flood default_conf 7 = flood (default_conf\<lparr>flood := [7 \<mapsto> \<lparr>count = 1, ts = 100\<rparr>]\<rparr>) 7"
      by simp
    then show False by (simp add: default_conf_def)
  qed
  show ?thesis using s r ne by simp
qed

end
